theory Spec2Isabelle
  imports Main
begin

section \<open>Data model of the chat room (package pkg)\<close>

text \<open>
  A Go \<^verbatim>\<open>string\<close> and a \<^verbatim>\<open>[]byte\<close> are sequences of 8-bit bytes: HOL's
  \<^typ>\<open>string\<close>. A \<^verbatim>\<open>peer.ID\<close> is a Go string type as well, compared with \<^verbatim>\<open>==\<close>.
  A Go \<^verbatim>\<open>error\<close> is represented by its message.
\<close>

type_synonym bytes = string
type_synonym peer_ID = string
type_synonym error = string

record chatMessage =
  Message :: string
  SenderID :: string
  SenderName :: string

record chatLog =
  Prefix :: string
  Msg :: string

text \<open>The fields of \<^verbatim>\<open>pubsub.Message\<close> that the receive loop reads.\<close>

record pubsub_Message =
  ReceivedFrom :: peer_ID
  Data :: bytes

section \<open>The receive loop\<close>

text \<open>
  One iteration of \<^verbatim>\<open>subscribeLoop\<close> observes one of three things: the \<^verbatim>\<open>select\<close> sees
  the context done; \<^verbatim>\<open>psSub.Next\<close> returns an error; \<^verbatim>\<open>psSub.Next\<close> returns a message.
  The loop is modelled as a function from the observations, in order, to what it does on
  its channels, in order: a send on \<^verbatim>\<open>Logs\<close>, a send on \<^verbatim>\<open>Inbound\<close>, or
  \<^verbatim>\<open>close(Inbound)\<close>. Both channels have capacity 1 and are received from by another
  goroutine (\<^verbatim>\<open>handleEvents\<close>, for the room \<^verbatim>\<open>ui.ChatRoom\<close> points to): a send of the
  loop waits until that goroutine has taken the entry before it, which delays the loop and
  changes neither what it sends nor the order. The second component of the result says whether the loop has returned; when the
  observations run out before it has, the loop is waiting in \<^verbatim>\<open>psSub.Next\<close>.

  \<^verbatim>\<open>json.Unmarshal\<close> is the standard library's: the loop takes the decoder as a
  parameter, \<open>None\<close> being a non-nil error.
\<close>

datatype next_result = CtxDone | NextErr | NextMsg pubsub_Message

datatype sub_out = ToLogs chatLog | ToInbound chatMessage | CloseInbound

datatype loop_status = Running | Returned

fun subscribeLoop ::
  "(bytes \<Rightarrow> chatMessage option) \<Rightarrow> peer_ID \<Rightarrow> next_result list \<Rightarrow> sub_out list \<times> loop_status"
where
  "subscribeLoop unmarshal self [] = ([], Running)"
| "subscribeLoop unmarshal self (CtxDone # rest) = ([CloseInbound], Returned)"
| "subscribeLoop unmarshal self (NextErr # rest) =
     ([ToLogs \<lparr>Prefix = ''suberr'', Msg = ''subscription closed''\<rparr>, CloseInbound], Returned)"
| "subscribeLoop unmarshal self (NextMsg msg # rest) =
     (if ReceivedFrom msg = self then subscribeLoop unmarshal self rest
      else (case unmarshal (Data msg) of
              None \<Rightarrow>
                (ToLogs \<lparr>Prefix = ''suberr'', Msg = ''failed to unmarshal JSON''\<rparr>
                   # fst (subscribeLoop unmarshal self rest),
                 snd (subscribeLoop unmarshal self rest))
            | Some chatMsg \<Rightarrow>
                (ToInbound chatMsg # fst (subscribeLoop unmarshal self rest),
                 snd (subscribeLoop unmarshal self rest))))"

text \<open>What the loop sent on \<^verbatim>\<open>Inbound\<close> and on \<^verbatim>\<open>Logs\<close>.\<close>

fun inbound_of :: "sub_out list \<Rightarrow> chatMessage list" where
  "inbound_of [] = []"
| "inbound_of (ToInbound m # outs) = m # inbound_of outs"
| "inbound_of (ToLogs l # outs) = inbound_of outs"
| "inbound_of (CloseInbound # outs) = inbound_of outs"

fun logs_of :: "sub_out list \<Rightarrow> chatLog list" where
  "logs_of [] = []"
| "logs_of (ToLogs l # outs) = l # logs_of outs"
| "logs_of (ToInbound m # outs) = logs_of outs"
| "logs_of (CloseInbound # outs) = logs_of outs"

text \<open>A decoder for the closed examples: it accepts one payload only.\<close>

definition hello_msg :: chatMessage where
  "hello_msg = \<lparr>Message = ''hi'', SenderID = ''me'', SenderName = ''bob''\<rparr>"

definition toy_unmarshal :: "bytes \<Rightarrow> chatMessage option" where
  "toy_unmarshal d = (if d = ''hello'' then Some hello_msg else None)"

section \<open>Joining and leaving a room\<close>

text \<open>
  The pubsub substrate (go-libp2p-pubsub) is not part of the repository. Of a
  \<^verbatim>\<open>PeerNetwork\<close> the model keeps the host's identity and how the substrate answers the
  calls \<^verbatim>\<open>JoinChatRoom\<close> and \<^verbatim>\<open>publishLoop\<close> make: for a topic name, the error of
  \<^verbatim>\<open>PubSub.Join\<close> or none; for a topic, the error of \<^verbatim>\<open>Subscribe\<close> or none; for a topic
  and a payload, the error of \<^verbatim>\<open>Publish\<close> or none. A topic handle and a subscription
  handle carry the name of the topic they stand for.
\<close>

datatype Topic = Topic string

datatype Subscription = Subscription string

record PeerNetwork =
  Host_ID :: peer_ID
  Join_err :: "string \<Rightarrow> error option"
  Subscribe_err :: "Topic \<Rightarrow> error option"
  Publish_err :: "Topic \<Rightarrow> bytes \<Rightarrow> error option"

definition PubSub_Join :: "PeerNetwork \<Rightarrow> string \<Rightarrow> error + Topic" where
  "PubSub_Join p name = (case Join_err p name of Some e \<Rightarrow> Inl e | None \<Rightarrow> Inr (Topic name))"

definition Topic_Subscribe :: "PeerNetwork \<Rightarrow> Topic \<Rightarrow> error + Subscription" where
  "Topic_Subscribe p t =
     (case Subscribe_err p t of
        Some e \<Rightarrow> Inl e
      | None \<Rightarrow> (case t of Topic name \<Rightarrow> Inr (Subscription name)))"

text \<open>
  \<^verbatim>\<open>ChatRoom\<close>. The three channels are made with capacity 1; a field holds what is
  buffered in the channel. \<open>psCtx_done\<close> says whether \<^verbatim>\<open>psCancel\<close> has been called,
  \<open>psSub_cancelled\<close> and \<open>psTopic_closed\<close> whether \<^verbatim>\<open>psSub.Cancel\<close> and
  \<^verbatim>\<open>psTopic.Close\<close> have; \<open>Inbound_closed\<close> whether \<^verbatim>\<open>close(Inbound)\<close> has run.
\<close>

record ChatRoom =
  Host :: PeerNetwork
  Inbound :: "chatMessage list"
  Inbound_closed :: bool
  Outbound :: "string list"
  Logs :: "chatLog list"
  RoomName :: string
  UserName :: string
  selfID :: peer_ID
  psCtx_done :: bool
  psTopic :: Topic
  psTopic_closed :: bool
  psSub :: Subscription
  psSub_cancelled :: bool

text \<open>\<^verbatim>\<open>fmt.Sprintf("room-peerchat-%s", roomName)\<close>\<close>

definition topicName :: "string \<Rightarrow> string" where
  "topicName roomName = ''room-peerchat-'' @ roomName"

text \<open>
  \<^verbatim>\<open>JoinChatRoom\<close> returns \<^verbatim>\<open>(nil, err)\<close> or \<^verbatim>\<open>(chatRoom, nil)\<close>: a sum. The two loops
  it starts on the new room are the functions \<open>subscribeLoop\<close> and \<open>publishLoop\<close>.
\<close>

definition JoinChatRoom :: "PeerNetwork \<Rightarrow> string \<Rightarrow> string \<Rightarrow> error + ChatRoom" where
  "JoinChatRoom p2pHost username roomName =
     (case PubSub_Join p2pHost (topicName roomName) of
        Inl err \<Rightarrow> Inl err
      | Inr topic \<Rightarrow>
          (case Topic_Subscribe p2pHost topic of
             Inl err \<Rightarrow> Inl err
           | Inr sub \<Rightarrow>
               Inr \<lparr>Host = p2pHost, Inbound = [], Inbound_closed = False, Outbound = [],
                    Logs = [], RoomName = roomName, UserName = username,
                    selfID = Host_ID p2pHost, psCtx_done = False, psTopic = topic,
                    psTopic_closed = False, psSub = sub, psSub_cancelled = False\<rparr>))"

text \<open>
  \<^verbatim>\<open>Exit\<close>: \<^verbatim>\<open>psSub.Cancel()\<close>, \<^verbatim>\<open>psTopic.Close()\<close> (its error is dropped), then the
  deferred \<^verbatim>\<open>psCancel()\<close>. \<^verbatim>\<open>Exit\<close> has no result and touches no channel of the room.
\<close>

definition Exit :: "ChatRoom \<Rightarrow> ChatRoom" where
  "Exit cr = ((cr\<lparr>psSub_cancelled := True\<rparr>)\<lparr>psTopic_closed := True\<rparr>)\<lparr>psCtx_done := True\<rparr>"

definition UpdateUser :: "string \<Rightarrow> ChatRoom \<Rightarrow> ChatRoom" where
  "UpdateUser newUsername cr = cr\<lparr>UserName := newUsername\<rparr>"

section \<open>The publish loop\<close>

text \<open>
  One iteration of \<^verbatim>\<open>publishLoop\<close> observes the context done or receives a message from
  \<^verbatim>\<open>Outbound\<close>. The loop reads \<^verbatim>\<open>cr.UserName\<close> and \<^verbatim>\<open>cr.selfID\<close> when it has received
  the message. Its result lists the payloads it hands to \<^verbatim>\<open>psTopic.Publish\<close> and the log
  entries it sends. \<^verbatim>\<open>json.Marshal\<close> and \<^verbatim>\<open>peer.ID.Pretty\<close> are parameters.
\<close>

datatype pub_event = PubCtxDone | FromOutbound string

datatype pub_out = Published bytes | PubToLogs chatLog

fun publishLoop ::
  "(chatMessage \<Rightarrow> bytes option) \<Rightarrow> (peer_ID \<Rightarrow> string) \<Rightarrow> ChatRoom \<Rightarrow> pub_event list
     \<Rightarrow> pub_out list \<times> loop_status"
where
  "publishLoop marshal pretty cr [] = ([], Running)"
| "publishLoop marshal pretty cr (PubCtxDone # rest) = ([], Returned)"
| "publishLoop marshal pretty cr (FromOutbound message # rest) =
     (case marshal \<lparr>Message = message, SenderID = pretty (selfID cr), SenderName = UserName cr\<rparr> of
        None \<Rightarrow>
          (PubToLogs \<lparr>Prefix = ''puberr'', Msg = ''failed to marshal JSON''\<rparr>
             # fst (publishLoop marshal pretty cr rest),
           snd (publishLoop marshal pretty cr rest))
      | Some msgBytes \<Rightarrow>
          (case Publish_err (Host cr) (psTopic cr) msgBytes of
             Some err \<Rightarrow>
               (Published msgBytes
                  # PubToLogs \<lparr>Prefix = ''puberr'', Msg = ''failed to publish message''\<rparr>
                  # fst (publishLoop marshal pretty cr rest),
                snd (publishLoop marshal pretty cr rest))
           | None \<Rightarrow>
               (Published msgBytes # fst (publishLoop marshal pretty cr rest),
                snd (publishLoop marshal pretty cr rest))))"

text \<open>The payloads of a run that were handed to \<^verbatim>\<open>psTopic.Publish\<close>, in order.\<close>

fun published :: "pub_out list \<Rightarrow> bytes list" where
  "published [] = []"
| "published (Published b # outs) = b # published outs"
| "published (PubToLogs l # outs) = published outs"

section \<open>The user interface\<close>

text \<open>
  The input field's done function (\<^verbatim>\<open>createInputField\<close>) sends a \<^verbatim>\<open>UICommand\<close> on
  \<^verbatim>\<open>cmdChan\<close> or the line on \<^verbatim>\<open>msgChan\<close>, and clears the field.
\<close>

record UICommand =
  CommandType :: string
  Argument :: string

datatype Key = KeyEnter | KeyTab | KeyBacktab | KeyEscape

datatype input_out = ToCmdChan UICommand | ToMsgChan string

definition HasPrefix :: "string \<Rightarrow> string \<Rightarrow> bool" where
  "HasPrefix s prefix = (take (length prefix) s = prefix)"

text \<open>\<^verbatim>\<open>strings.SplitN(s, sep, n)\<close> for a separator of one byte and \<open>n \<ge> 0\<close>.\<close>

fun SplitN :: "string \<Rightarrow> char \<Rightarrow> nat \<Rightarrow> string list" where
  "SplitN s sep 0 = []"
| "SplitN s sep (Suc 0) = [s]"
| "SplitN s sep (Suc (Suc n)) =
     (if sep \<in> set s
      then takeWhile (\<lambda>c. c \<noteq> sep) s # SplitN (tl (dropWhile (\<lambda>c. c \<noteq> sep) s)) sep (Suc n)
      else [s])"

text \<open>The result: what is sent, if anything, and the text left in the field.\<close>

definition doneFunc :: "Key \<Rightarrow> string \<Rightarrow> input_out option \<times> string" where
  "doneFunc key line =
     (if key = KeyEnter then
        (if length line > 0 then
           (if HasPrefix line ''/'' then
              (let cmdParts = SplitN line CHR '' '' 2;
                   arg = (if length cmdParts > 1 then cmdParts ! 1 else [])
               in (Some (ToCmdChan \<lparr>CommandType = cmdParts ! 0, Argument = arg\<rparr>), []))
            else (Some (ToMsgChan line), []))
         else (None, line))
      else (None, line))"

text \<open>
  The state the commands act on: the \<^verbatim>\<open>ChatRoom\<close> objects by address, the address in
  \<^verbatim>\<open>ui.ChatRoom\<close>, the next free address, and of the widgets the lines and the title of
  the message box, the label of the input field and whether the application was stopped.
\<close>

record UI =
  rooms :: "nat \<Rightarrow> ChatRoom"
  next_room :: nat
  ChatRoom :: nat
  App_stopped :: bool
  MessageBox :: "string list"
  MessageBox_title :: string
  InputBox_label :: string

definition cur :: "UI \<Rightarrow> ChatRoom" where
  "cur ui = rooms ui (ChatRoom ui)"

text \<open>
  \<^verbatim>\<open>processCommand\<close> and \<^verbatim>\<open>switchRoom\<close> run in the goroutine of \<^verbatim>\<open>handleEvents\<close>. In
  the repository \<^verbatim>\<open>handleEvents\<close> is the only receiver of \<^verbatim>\<open>ui.Logs\<close>; the two loops
  only send on it. A send on a channel whose buffer (capacity 1) is full waits for a
  receive; when \<^verbatim>\<open>processCommand\<close> or \<^verbatim>\<open>switchRoom\<close> sends on \<^verbatim>\<open>ui.Logs\<close>, the only
  receiver is the sender itself, so the wait never ends: \<open>Blocked\<close>. \<open>Done\<close> holds the
  state in which the function returns.
\<close>

datatype 'a outcome = Blocked | Done 'a

definition chan_send :: "'a \<Rightarrow> 'a list \<Rightarrow> 'a list outcome" where
  "chan_send x buf = (if length buf < 1 then Done (buf @ [x]) else Blocked)"

text \<open>\<^verbatim>\<open>ui.Logs <- l\<close>: the channel of the room \<^verbatim>\<open>ui.ChatRoom\<close> points to.\<close>

definition send_Logs :: "chatLog \<Rightarrow> UI \<Rightarrow> UI outcome" where
  "send_Logs l ui =
     (case chan_send l (Logs (cur ui)) of
        Blocked \<Rightarrow> Blocked
      | Done buf \<Rightarrow> Done (ui\<lparr>rooms := (rooms ui)(ChatRoom ui := (cur ui)\<lparr>Logs := buf\<rparr>)\<rparr>))"

definition switchRoom :: "string \<Rightarrow> UI \<Rightarrow> UI outcome" where
  "switchRoom roomName ui =
     (case send_Logs \<lparr>Prefix = ''info'',
                      Msg = ''switching to room '' @ [CHR 0x27] @ roomName @ [CHR 0x27]\<rparr> ui of
        Blocked \<Rightarrow> Blocked
      | Done ui1 \<Rightarrow>
          (case JoinChatRoom (Host (cur ui1)) (UserName (cur ui1)) roomName of
             Inl err \<Rightarrow>
               send_Logs \<lparr>Prefix = ''error'', Msg = ''could not switch rooms: '' @ err\<rparr> ui1
           | Inr newChatRoom \<Rightarrow>
               Done (ui1\<lparr>rooms := (rooms ui1)(ChatRoom ui1 := Exit (cur ui1),
                                               next_room ui1 := newChatRoom),
                         next_room := Suc (next_room ui1),
                         ChatRoom := next_room ui1,
                         MessageBox := [],
                         MessageBox_title := ''ChatRoom-'' @ RoomName newChatRoom\<rparr>)))"

text \<open>\<^verbatim>\<open>ui.Close\<close>: \<^verbatim>\<open>ui.psCancel()\<close>, then \<^verbatim>\<open>ui.App.Stop()\<close>.\<close>

definition Close :: "UI \<Rightarrow> UI" where
  "Close ui = ui\<lparr>rooms := (rooms ui)(ChatRoom ui := (cur ui)\<lparr>psCtx_done := True\<rparr>),
                 App_stopped := True\<rparr>"

definition processCommand :: "UICommand \<Rightarrow> UI \<Rightarrow> UI outcome" where
  "processCommand cmd ui =
     (if CommandType cmd = ''/exit'' then Done (Close ui)
      else if CommandType cmd = ''/clear'' then Done (ui\<lparr>MessageBox := []\<rparr>)
      else if CommandType cmd = ''/room'' then
        (if Argument cmd = [] then
           send_Logs \<lparr>Prefix = ''error'', Msg = ''missing room name''\<rparr> ui
         else switchRoom (Argument cmd) ui)
      else if CommandType cmd = ''/user'' then
        (if Argument cmd = [] then
           send_Logs \<lparr>Prefix = ''error'', Msg = ''missing username''\<rparr> ui
         else
           (let ui' = ui\<lparr>rooms := (rooms ui)(ChatRoom ui := UpdateUser (Argument cmd) (cur ui))\<rparr>
            in Done (ui'\<lparr>InputBox_label := UserName (cur ui') @ '' > ''\<rparr>)))
      else
        send_Logs \<lparr>Prefix = ''error'', Msg = ''unsupported command: '' @ CommandType cmd\<rparr> ui)"

text \<open>Closed examples: a substrate that refuses one topic, and a user interface on a room.\<close>

definition net0 :: PeerNetwork where
  "net0 = \<lparr>Host_ID = ''me'',
           Join_err = (\<lambda>name. if name = ''room-peerchat-lobby''
                               then Some ''topic already exists'' else None),
           Subscribe_err = (\<lambda>t. None),
           Publish_err = (\<lambda>t d. None)\<rparr>"

definition room0 :: ChatRoom where
  "room0 = \<lparr>Host = net0, Inbound = [], Inbound_closed = False, Outbound = [], Logs = [],
            RoomName = ''lobby'', UserName = ''bob'', selfID = ''me'', psCtx_done = False,
            psTopic = Topic ''room-peerchat-lobby'', psTopic_closed = False,
            psSub = Subscription ''room-peerchat-lobby'', psSub_cancelled = False\<rparr>"

definition toy_marshal :: "chatMessage \<Rightarrow> bytes option" where
  "toy_marshal m = Some (SenderName m @ '': '' @ Message m)"

definition net1 :: PeerNetwork where
  "net1 = \<lparr>Host_ID = ''me'', Join_err = (\<lambda>name. None),
           Subscribe_err = (\<lambda>t. Some ''pubsub is shutting down''),
           Publish_err = (\<lambda>t d. None)\<rparr>"

definition ui0 :: UI where
  "ui0 = \<lparr>rooms = (\<lambda>a. room0), next_room = 1, ChatRoom = 0, App_stopped = False,
          MessageBox = [], MessageBox_title = ''ChatRoom-lobby'', InputBox_label = ''bob > ''\<rparr>"

text \<open>
  The same user interface when an entry waits on \<^verbatim>\<open>ui.Logs\<close>: the receive loop of the
  room has sent the entry for a payload that did not decode, and \<^verbatim>\<open>handleEvents\<close> has
  not received it yet.
\<close>

definition ui_log_pending :: UI where
  "ui_log_pending =
     ui0\<lparr>rooms := (\<lambda>a. room0\<lparr>Logs := [\<lparr>Prefix = ''suberr'', Msg = ''failed to unmarshal JSON''\<rparr>]\<rparr>)\<rparr>"

section \<open>The wire format: encoding/json on a chatMessage\<close>

text \<open>
  Modelled from the spec: section 6 fixes the wire format as a JSON object with the keys
  \<^verbatim>\<open>message\<close>, \<^verbatim>\<open>senderid\<close> and \<^verbatim>\<open>sendername\<close>, and the loops call
  \<^verbatim>\<open>json.Marshal\<close> and \<^verbatim>\<open>json.Unmarshal\<close> of Go's standard library for it. The library
  is not under src/. What is missing is modelled after the library itself, for the one type
  the repository uses it on: \<^verbatim>\<open>appendString\<close> with HTML escaping (encode.go), the scanner
  behind \<^verbatim>\<open>checkValid\<close> (scanner.go), \<^verbatim>\<open>unquoteBytes\<close> and the decoding of an object
  into a struct of three string fields (decode.go), and \<^verbatim>\<open>DecodeRune\<close> and
  \<^verbatim>\<open>EncodeRune\<close> (unicode/utf8). Runes and byte values are natural numbers; a mask
  \<^verbatim>\<open>x & (2^k - 1)\<close> is written \<open>x mod 2^k\<close>, a shift \<^verbatim>\<open>x << k\<close> is \<open>x * 2^k\<close>.
  Since Go 1.22 the encoder writes backspace and form feed as \<^verbatim>\<open>\b\<close> and \<^verbatim>\<open>\f\<close>; before,
  it wrote \<^verbatim>\<open>\u0008\<close> and \<^verbatim>\<open>\u000c\<close>, which the decoder reads back the same.
\<close>

abbreviation dquote :: char where "dquote \<equiv> CHR 0x22"
abbreviation bslash :: char where "bslash \<equiv> CHR 0x5C"

definition byte :: "char \<Rightarrow> nat" where
  "byte c = of_char c"

subsection \<open>unicode/utf8\<close>

definition RuneError :: nat where
  "RuneError = 0xFFFD"

text \<open>
  utf8.DecodeRune: the rune and the number of bytes it takes. For a lead byte from 0xC2 to
  0xF4, \<open>runeLen\<close> and the range \<open>acceptLo\<close> to \<open>acceptHi\<close> of the second byte are
  what the tables \<^verbatim>\<open>first\<close> and \<^verbatim>\<open>acceptRanges\<close> hold.
\<close>

definition runeLen :: "nat \<Rightarrow> nat" where
  "runeLen b0 = (if b0 < 0xE0 then 2 else if b0 < 0xF0 then 3 else 4)"

definition acceptLo :: "nat \<Rightarrow> nat" where
  "acceptLo b0 = (if b0 = 0xE0 then 0xA0 else if b0 = 0xF0 then 0x90 else 0x80)"

definition acceptHi :: "nat \<Rightarrow> nat" where
  "acceptHi b0 = (if b0 = 0xED then 0x9F else if b0 = 0xF4 then 0x8F else 0xBF)"

definition DecodeRune :: "bytes \<Rightarrow> nat \<times> nat" where
  "DecodeRune p =
     (if p = [] then (RuneError, 0)
      else if byte (p ! 0) < 0x80 then (byte (p ! 0), 1)
      else if byte (p ! 0) < 0xC2 \<or> 0xF4 < byte (p ! 0) then (RuneError, 1)
      else if length p < runeLen (byte (p ! 0)) then (RuneError, 1)
      else if byte (p ! 1) < acceptLo (byte (p ! 0)) \<or> acceptHi (byte (p ! 0)) < byte (p ! 1)
        then (RuneError, 1)
      else if runeLen (byte (p ! 0)) \<le> 2
        then ((byte (p ! 0) mod 32) * 64 + byte (p ! 1) mod 64, 2)
      else if byte (p ! 2) < 0x80 \<or> 0xBF < byte (p ! 2) then (RuneError, 1)
      else if runeLen (byte (p ! 0)) \<le> 3
        then ((byte (p ! 0) mod 16) * 4096 + (byte (p ! 1) mod 64) * 64 + byte (p ! 2) mod 64, 3)
      else if byte (p ! 3) < 0x80 \<or> 0xBF < byte (p ! 3) then (RuneError, 1)
      else ((byte (p ! 0) mod 8) * 262144 + (byte (p ! 1) mod 64) * 4096
              + (byte (p ! 2) mod 64) * 64 + byte (p ! 3) mod 64, 4))"

definition EncodeRune :: "nat \<Rightarrow> bytes" where
  "EncodeRune r =
     (if r \<le> 0x7F then [char_of r]
      else if r \<le> 0x7FF then [char_of (0xC0 + r div 64), char_of (0x80 + r mod 64)]
      else if 0x10FFFF < r \<or> (0xD800 \<le> r \<and> r \<le> 0xDFFF) then [CHR 0xEF, CHR 0xBF, CHR 0xBD]
      else if r \<le> 0xFFFF then
        [char_of (0xE0 + r div 4096), char_of (0x80 + (r div 64) mod 64), char_of (0x80 + r mod 64)]
      else
        [char_of (0xF0 + r div 262144), char_of (0x80 + (r div 4096) mod 64),
         char_of (0x80 + (r div 64) mod 64), char_of (0x80 + r mod 64)])"



text \<open>The shapes of a multi-byte sequence that DecodeRune accepts.\<close>

definition seq2 :: "char \<Rightarrow> char \<Rightarrow> bool" where
  "seq2 b b1 = (0xC2 \<le> byte b \<and> byte b < 0xE0 \<and> 0x80 \<le> byte b1 \<and> byte b1 \<le> 0xBF)"

definition seq3 :: "char \<Rightarrow> char \<Rightarrow> char \<Rightarrow> bool" where
  "seq3 b b1 b2 = (0xE0 \<le> byte b \<and> byte b < 0xF0
     \<and> acceptLo (byte b) \<le> byte b1 \<and> byte b1 \<le> acceptHi (byte b)
     \<and> 0x80 \<le> byte b2 \<and> byte b2 \<le> 0xBF)"

definition seq4 :: "char \<Rightarrow> char \<Rightarrow> char \<Rightarrow> char \<Rightarrow> bool" where
  "seq4 b b1 b2 b3 = (0xF0 \<le> byte b \<and> byte b \<le> 0xF4
     \<and> acceptLo (byte b) \<le> byte b1 \<and> byte b1 \<le> acceptHi (byte b)
     \<and> 0x80 \<le> byte b2 \<and> byte b2 \<le> 0xBF \<and> 0x80 \<le> byte b3 \<and> byte b3 \<le> 0xBF)"

text \<open>The runes of these sequences.\<close>

definition rune2 :: "char \<Rightarrow> char \<Rightarrow> nat" where
  "rune2 b b1 = (byte b mod 32) * 64 + byte b1 mod 64"

definition rune3 :: "char \<Rightarrow> char \<Rightarrow> char \<Rightarrow> nat" where
  "rune3 b b1 b2 = (byte b mod 16) * 4096 + (byte b1 mod 64) * 64 + byte b2 mod 64"

definition rune4 :: "char \<Rightarrow> char \<Rightarrow> char \<Rightarrow> char \<Rightarrow> nat" where
  "rune4 b b1 b2 b3 = (byte b mod 8) * 262144 + (byte b1 mod 64) * 4096 + (byte b2 mod 64) * 64
     + byte b3 mod 64"

subsection \<open>encoding/json: Marshal\<close>

definition hex :: "nat \<Rightarrow> char" where
  "hex n = ''0123456789abcdef'' ! n"

definition htmlSafe :: "char \<Rightarrow> bool" where
  "htmlSafe b = (0x20 \<le> byte b \<and> b \<noteq> dquote \<and> b \<noteq> CHR ''&'' \<and> b \<noteq> CHR ''<''
                 \<and> b \<noteq> CHR ''>'' \<and> b \<noteq> bslash)"

definition escapeByte :: "char \<Rightarrow> bytes" where
  "escapeByte b =
     (if b = bslash \<or> b = dquote then [bslash, b]
      else if b = CHR 0x08 then [bslash, CHR ''b'']
      else if b = CHR 0x0C then [bslash, CHR ''f'']
      else if b = CHR 0x0A then [bslash, CHR ''n'']
      else if b = CHR 0x0D then [bslash, CHR ''r'']
      else if b = CHR 0x09 then [bslash, CHR ''t'']
      else [bslash, CHR ''u'', CHR ''0'', CHR ''0'', hex (byte b div 16), hex (byte b mod 16)])"

fun appendBody :: "bytes \<Rightarrow> bytes" where
  "appendBody [] = []"
| "appendBody (b # src) =
     (if byte b < 0x80 then
        (if htmlSafe b then b # appendBody src else escapeByte b @ appendBody src)
      else
        (let c = fst (DecodeRune (b # src)); size = snd (DecodeRune (b # src)) in
         if c = RuneError \<and> size = 1 then
           [bslash, CHR ''u'', CHR ''f'', CHR ''f'', CHR ''f'', CHR ''d''] @ appendBody src
         else if c = 0x2028 \<or> c = 0x2029 then
           [bslash, CHR ''u'', CHR ''2'', CHR ''0'', CHR ''2'', hex (c mod 16)]
             @ appendBody (drop (size - 1) src)
         else take size (b # src) @ appendBody (drop (size - 1) src)))"

text \<open>
  Modelled from the spec: \<^verbatim>\<open>json.Marshal\<close> of a chatMessage (encoding/json, not under
  src/). It returns no error for a struct of strings.
\<close>

definition appendString :: "bytes \<Rightarrow> bytes" where
  "appendString src = [dquote] @ appendBody src @ [dquote]"

definition json_Marshal :: "chatMessage \<Rightarrow> bytes" where
  "json_Marshal v =
     ''{'' @ [dquote] @ ''message'' @ [dquote] @ '':'' @ appendString (Message v)
       @ '','' @ [dquote] @ ''senderid'' @ [dquote] @ '':'' @ appendString (SenderID v)
       @ '','' @ [dquote] @ ''sendername'' @ [dquote] @ '':'' @ appendString (SenderName v)
       @ ''}''"

subsection \<open>encoding/json: the scanner (checkValid)\<close>

definition isSpace :: "char \<Rightarrow> bool" where
  "isSpace c = (c = CHR '' '' \<or> c = CHR 0x09 \<or> c = CHR 0x0D \<or> c = CHR 0x0A)"

definition isDigit :: "char \<Rightarrow> bool" where
  "isDigit c = (0x30 \<le> byte c \<and> byte c \<le> 0x39)"

definition isHex :: "char \<Rightarrow> bool" where
  "isHex c = (isDigit c \<or> (0x61 \<le> byte c \<and> byte c \<le> 0x66) \<or> (0x41 \<le> byte c \<and> byte c \<le> 0x46))"

datatype parse_state = parseObjectKey | parseObjectValue | parseArrayValue

datatype scan_step =
    stateBeginValueOrEmpty | stateBeginValue | stateBeginStringOrEmpty | stateBeginString
  | stateEndValue | stateEndTop
  | stateInString | stateInStringEsc
  | stateInStringEscU | stateInStringEscU1 | stateInStringEscU12 | stateInStringEscU123
  | stateNeg | state1 | state0 | stateDot | stateDot0 | stateE | stateESign | stateE0
  | stateT | stateTr | stateTru | stateF | stateFa | stateFal | stateFals
  | stateN | stateNu | stateNul
  | stateError

type_synonym scanner = "scan_step \<times> parse_state list"

definition maxNestingDepth :: nat where
  "maxNestingDepth = 10000"

definition pushParseState :: "parse_state list \<Rightarrow> parse_state \<Rightarrow> scan_step \<Rightarrow> scanner" where
  "pushParseState ps new succ =
     (if length (new # ps) \<le> maxNestingDepth then (succ, new # ps) else (stateError, new # ps))"

definition popParseState :: "parse_state list \<Rightarrow> scanner" where
  "popParseState ps = (if tl ps = [] then (stateEndTop, tl ps) else (stateEndValue, tl ps))"

definition endTop :: "parse_state list \<Rightarrow> char \<Rightarrow> scanner" where
  "endTop ps c = (if isSpace c then (stateEndTop, ps) else (stateError, ps))"

definition endValue :: "parse_state list \<Rightarrow> char \<Rightarrow> scanner" where
  "endValue ps c =
     (case ps of
        [] \<Rightarrow> endTop ps c
      | tp # rest \<Rightarrow>
          if isSpace c then (stateEndValue, ps)
          else (case tp of
                  parseObjectKey \<Rightarrow>
                    if c = CHR '':'' then (stateBeginValue, parseObjectValue # rest)
                    else (stateError, ps)
                | parseObjectValue \<Rightarrow>
                    if c = CHR '','' then (stateBeginString, parseObjectKey # rest)
                    else if c = CHR ''}'' then popParseState ps
                    else (stateError, ps)
                | parseArrayValue \<Rightarrow>
                    if c = CHR '','' then (stateBeginValue, ps)
                    else if c = CHR '']'' then popParseState ps
                    else (stateError, ps)))"

definition beginValue :: "parse_state list \<Rightarrow> char \<Rightarrow> scanner" where
  "beginValue ps c =
     (if isSpace c then (stateBeginValue, ps)
      else if c = CHR ''{'' then pushParseState ps parseObjectKey stateBeginStringOrEmpty
      else if c = CHR ''['' then pushParseState ps parseArrayValue stateBeginValueOrEmpty
      else if c = dquote then (stateInString, ps)
      else if c = CHR ''-'' then (stateNeg, ps)
      else if c = CHR ''0'' then (state0, ps)
      else if c = CHR ''t'' then (stateT, ps)
      else if c = CHR ''f'' then (stateF, ps)
      else if c = CHR ''n'' then (stateN, ps)
      else if isDigit c then (state1, ps)
      else (stateError, ps))"

definition beginString :: "parse_state list \<Rightarrow> char \<Rightarrow> scanner" where
  "beginString ps c =
     (if isSpace c then (stateBeginString, ps)
      else if c = dquote then (stateInString, ps)
      else (stateError, ps))"

definition num0 :: "parse_state list \<Rightarrow> char \<Rightarrow> scanner" where
  "num0 ps c =
     (if c = CHR ''.'' then (stateDot, ps)
      else if c = CHR ''e'' \<or> c = CHR ''E'' then (stateE, ps)
      else endValue ps c)"

definition numESign :: "parse_state list \<Rightarrow> char \<Rightarrow> scanner" where
  "numESign ps c = (if isDigit c then (stateE0, ps) else (stateError, ps))"

definition expect :: "char \<Rightarrow> scan_step \<Rightarrow> parse_state list \<Rightarrow> char \<Rightarrow> scanner" where
  "expect want next ps c = (if c = want then (next, ps) else (stateError, ps))"

fun scan_byte :: "scanner \<Rightarrow> char \<Rightarrow> scanner" where
  "scan_byte (stateBeginValueOrEmpty, ps) c =
     (if isSpace c then (stateBeginValueOrEmpty, ps)
      else if c = CHR '']'' then endValue ps c
      else beginValue ps c)"
| "scan_byte (stateBeginValue, ps) c = beginValue ps c"
| "scan_byte (stateBeginStringOrEmpty, ps) c =
     (if isSpace c then (stateBeginStringOrEmpty, ps)
      else if c = CHR ''}'' then endValue (parseObjectValue # tl ps) c
      else beginString ps c)"
| "scan_byte (stateBeginString, ps) c = beginString ps c"
| "scan_byte (stateEndValue, ps) c = endValue ps c"
| "scan_byte (stateEndTop, ps) c = endTop ps c"
| "scan_byte (stateInString, ps) c =
     (if c = dquote then (stateEndValue, ps)
      else if c = bslash then (stateInStringEsc, ps)
      else if byte c < 0x20 then (stateError, ps)
      else (stateInString, ps))"
| "scan_byte (stateInStringEsc, ps) c =
     (if c \<in> set ''bfnrt'' \<or> c = bslash \<or> c = CHR ''/'' \<or> c = dquote then (stateInString, ps)
      else if c = CHR ''u'' then (stateInStringEscU, ps)
      else (stateError, ps))"
| "scan_byte (stateInStringEscU, ps) c = (if isHex c then (stateInStringEscU1, ps) else (stateError, ps))"
| "scan_byte (stateInStringEscU1, ps) c = (if isHex c then (stateInStringEscU12, ps) else (stateError, ps))"
| "scan_byte (stateInStringEscU12, ps) c = (if isHex c then (stateInStringEscU123, ps) else (stateError, ps))"
| "scan_byte (stateInStringEscU123, ps) c = (if isHex c then (stateInString, ps) else (stateError, ps))"
| "scan_byte (stateNeg, ps) c =
     (if c = CHR ''0'' then (state0, ps)
      else if isDigit c then (state1, ps)
      else (stateError, ps))"
| "scan_byte (state1, ps) c = (if isDigit c then (state1, ps) else num0 ps c)"
| "scan_byte (state0, ps) c = num0 ps c"
| "scan_byte (stateDot, ps) c = (if isDigit c then (stateDot0, ps) else (stateError, ps))"
| "scan_byte (stateDot0, ps) c =
     (if isDigit c then (stateDot0, ps)
      else if c = CHR ''e'' \<or> c = CHR ''E'' then (stateE, ps)
      else endValue ps c)"
| "scan_byte (stateE, ps) c =
     (if c = CHR ''+'' \<or> c = CHR ''-'' then (stateESign, ps) else numESign ps c)"
| "scan_byte (stateESign, ps) c = numESign ps c"
| "scan_byte (stateE0, ps) c = (if isDigit c then (stateE0, ps) else endValue ps c)"
| "scan_byte (stateT, ps) c = expect CHR ''r'' stateTr ps c"
| "scan_byte (stateTr, ps) c = expect CHR ''u'' stateTru ps c"
| "scan_byte (stateTru, ps) c = expect CHR ''e'' stateEndValue ps c"
| "scan_byte (stateF, ps) c = expect CHR ''a'' stateFa ps c"
| "scan_byte (stateFa, ps) c = expect CHR ''l'' stateFal ps c"
| "scan_byte (stateFal, ps) c = expect CHR ''s'' stateFals ps c"
| "scan_byte (stateFals, ps) c = expect CHR ''e'' stateEndValue ps c"
| "scan_byte (stateN, ps) c = expect CHR ''u'' stateNu ps c"
| "scan_byte (stateNu, ps) c = expect CHR ''l'' stateNul ps c"
| "scan_byte (stateNul, ps) c = expect CHR ''l'' stateEndValue ps c"
| "scan_byte (stateError, ps) c = (stateError, ps)"

text \<open>checkValid: every byte through the scanner, then eof.\<close>

definition scan_eof :: "scanner \<Rightarrow> bool" where
  "scan_eof s =
     (if fst s = stateError then False
      else if fst s = stateEndTop then True
      else fst (scan_byte s CHR '' '') = stateEndTop)"

definition checkValid :: "bytes \<Rightarrow> bool" where
  "checkValid data = scan_eof (foldl scan_byte (stateBeginValue, []) data)"

subsection \<open>encoding/json: Unmarshal into a chatMessage\<close>

text \<open>unquoteBytes, on the bytes between the quotes of a literal.\<close>

definition hexval :: "char \<Rightarrow> nat option" where
  "hexval c =
     (if isDigit c then Some (byte c - 0x30)
      else if 0x61 \<le> byte c \<and> byte c \<le> 0x66 then Some (byte c - 0x61 + 10)
      else if 0x41 \<le> byte c \<and> byte c \<le> 0x46 then Some (byte c - 0x41 + 10)
      else None)"

text \<open>getu4, on the four bytes after \<^verbatim>\<open>\u\<close>.\<close>

definition getu4 :: "bytes \<Rightarrow> nat option" where
  "getu4 s =
     (if length s < 4 then None
      else (case (hexval (s ! 0), hexval (s ! 1), hexval (s ! 2), hexval (s ! 3)) of
              (Some a, Some b, Some c, Some d) \<Rightarrow> Some (((a * 16 + b) * 16 + c) * 16 + d)
            | _ \<Rightarrow> None))"

text \<open>getu4 on bytes that start with the backslash.\<close>

definition getu4_esc :: "bytes \<Rightarrow> nat option" where
  "getu4_esc s = (if take 2 s = [bslash, CHR ''u''] then getu4 (drop 2 s) else None)"

definition IsSurrogate :: "nat \<Rightarrow> bool" where
  "IsSurrogate r = (0xD800 \<le> r \<and> r < 0xE000)"

text \<open>utf16.DecodeRune; a second argument \<open>None\<close> is getu4's -1.\<close>

definition utf16_DecodeRune :: "nat \<Rightarrow> nat option \<Rightarrow> nat" where
  "utf16_DecodeRune r1 r2 =
     (case r2 of
        None \<Rightarrow> RuneError
      | Some r2' \<Rightarrow>
          if 0xD800 \<le> r1 \<and> r1 < 0xDC00 \<and> 0xDC00 \<le> r2' \<and> r2' < 0xE000
          then (r1 - 0xD800) * 1024 + (r2' - 0xDC00) + 0x10000
          else RuneError)"

definition prepend :: "bytes \<Rightarrow> bytes option \<Rightarrow> bytes option" where
  "prepend b r = map_option (\<lambda>s. b @ s) r"

fun unquoteBytes :: "bytes \<Rightarrow> bytes option" where
  "unquoteBytes [] = Some []"
| "unquoteBytes (c # s) =
     (if c = bslash then
        (case s of
           [] \<Rightarrow> None
         | e # s' \<Rightarrow>
             if e = dquote \<or> e = bslash \<or> e = CHR ''/'' \<or> e = CHR 0x27 then prepend [e] (unquoteBytes s')
             else if e = CHR ''b'' then prepend [CHR 0x08] (unquoteBytes s')
             else if e = CHR ''f'' then prepend [CHR 0x0C] (unquoteBytes s')
             else if e = CHR ''n'' then prepend [CHR 0x0A] (unquoteBytes s')
             else if e = CHR ''r'' then prepend [CHR 0x0D] (unquoteBytes s')
             else if e = CHR ''t'' then prepend [CHR 0x09] (unquoteBytes s')
             else if e = CHR ''u'' then
               (case getu4 s' of
                  None \<Rightarrow> None
                | Some rr \<Rightarrow>
                    if IsSurrogate rr then
                      (if utf16_DecodeRune rr (getu4_esc (drop 4 s')) \<noteq> RuneError
                       then prepend (EncodeRune (utf16_DecodeRune rr (getu4_esc (drop 4 s'))))
                              (unquoteBytes (drop 10 s'))
                       else prepend (EncodeRune RuneError) (unquoteBytes (drop 4 s')))
                    else prepend (EncodeRune rr) (unquoteBytes (drop 4 s')))
             else None)
      else if c = dquote \<or> byte c < 0x20 then None
      else if byte c < 0x80 then prepend [c] (unquoteBytes s)
      else prepend (EncodeRune (fst (DecodeRune (c # s))))
             (unquoteBytes (drop (snd (DecodeRune (c # s)) - 1) s)))"

text \<open>
  The decoder reads data that checkValid has accepted. \<open>rescanLiteral\<close> for a string,
  after its opening quote: the bytes up to the closing quote, and what follows it.
\<close>

fun string_lit :: "bytes \<Rightarrow> bytes \<times> bytes" where
  "string_lit [] = ([], [])"
| "string_lit (c # s) =
     (if c = dquote then ([], s)
      else if c = bslash then
        (case s of
           [] \<Rightarrow> ([c], [])
         | e # s' \<Rightarrow> (c # e # fst (string_lit s'), snd (string_lit s')))
      else (c # fst (string_lit s), snd (string_lit s)))"

text \<open>
  \<open>skip\<close>: what follows a value that starts after an opening \<^verbatim>\<open>{\<close> or \<^verbatim>\<open>[\<close>. The
  first argument says whether the bytes are inside a string literal (and after a
  backslash there), the second counts the brackets that are open.
\<close>

datatype skip_mode = Plain | InStr | InEsc

fun skip_nested :: "skip_mode \<Rightarrow> nat \<Rightarrow> bytes \<Rightarrow> bytes" where
  "skip_nested m d [] = []"
| "skip_nested Plain d (c # s) =
     (if c = dquote then skip_nested InStr d s
      else if c = CHR ''{'' \<or> c = CHR ''['' then skip_nested Plain (Suc d) s
      else if c = CHR ''}'' \<or> c = CHR '']'' then (if d = 0 then s else skip_nested Plain (d - 1) s)
      else skip_nested Plain d s)"
| "skip_nested InStr d (c # s) =
     (if c = dquote then skip_nested Plain d s
      else if c = bslash then skip_nested InEsc d s
      else skip_nested InStr d s)"
| "skip_nested InEsc d (c # s) = skip_nested InStr d s"

definition isDelim :: "char \<Rightarrow> bool" where
  "isDelim c = (isSpace c \<or> c = CHR '','' \<or> c = CHR ''}'' \<or> c = CHR '']'')"

text \<open>What follows the value that starts at the head of the bytes.\<close>

definition skip_value :: "bytes \<Rightarrow> bytes" where
  "skip_value s =
     (case s of
        [] \<Rightarrow> []
      | c # s' \<Rightarrow>
          if c = dquote then snd (string_lit s')
          else if c = CHR ''{'' \<or> c = CHR ''['' then skip_nested Plain 0 s'
          else dropWhile (\<lambda>c. \<not> isDelim c) s)"

definition skip_space :: "bytes \<Rightarrow> bytes" where
  "skip_space s = dropWhile isSpace s"

text \<open>
  The field a key names: the exact name, or the name under Unicode simple case folding
  (the long s, U+017F, folds to \<^verbatim>\<open>s\<close>; the Kelvin sign, U+212A, to \<^verbatim>\<open>k\<close>). The names are
  lower-case ASCII letters.
\<close>

fun equalFold :: "string \<Rightarrow> bytes \<Rightarrow> bool" where
  "equalFold [] k = (k = [])"
| "equalFold (n # ns) k =
     (case k of
        [] \<Rightarrow> False
      | c # k' \<Rightarrow>
          if c = n \<or> byte c + 32 = byte n then equalFold ns k'
          else if n = CHR ''s'' \<and> take 2 k = [CHR 0xC5, CHR 0xBF] then equalFold ns (drop 1 k')
          else if n = CHR ''k'' \<and> take 3 k = [CHR 0xE2, CHR 0x84, CHR 0xAA] then equalFold ns (drop 2 k')
          else False)"

text \<open>
  The state of the decoder: the struct being filled, and whether an error has been saved
  (an \<^verbatim>\<open>UnmarshalTypeError\<close>: decoding goes on, and Unmarshal returns the error).
\<close>

type_synonym dec_state = "chatMessage \<times> bool"

text \<open>
  \<open>d.value\<close> into a string field, the value starting at the head of the bytes: a string
  is stored, \<^verbatim>\<open>null\<close> is ignored, anything else saves an error.
\<close>

definition store_string :: "(string \<Rightarrow> chatMessage \<Rightarrow> chatMessage) \<Rightarrow> bytes \<Rightarrow> dec_state \<Rightarrow> dec_state" where
  "store_string set_field s st =
     (case s of
        [] \<Rightarrow> st
      | c # s' \<Rightarrow>
          if c = dquote then
            (case unquoteBytes (fst (string_lit s')) of
               None \<Rightarrow> (fst st, True)
             | Some v \<Rightarrow> (set_field v (fst st), snd st))
          else if c = CHR ''n'' then st
          else (fst st, True))"

definition store_member :: "bytes \<Rightarrow> bytes \<Rightarrow> dec_state \<Rightarrow> dec_state" where
  "store_member key s st =
     (if equalFold ''message'' key then store_string (\<lambda>v m. m\<lparr>Message := v\<rparr>) s st
      else if equalFold ''senderid'' key then store_string (\<lambda>v m. m\<lparr>SenderID := v\<rparr>) s st
      else if equalFold ''sendername'' key then store_string (\<lambda>v m. m\<lparr>SenderName := v\<rparr>) s st
      else st)"

text \<open>The key of a member whose opening quote has been read, and the bytes of its value.\<close>

definition member_key :: "bytes \<Rightarrow> bytes" where
  "member_key s = (case unquoteBytes (fst (string_lit s)) of None \<Rightarrow> [] | Some k \<Rightarrow> k)"

definition member_value :: "bytes \<Rightarrow> bytes" where
  "member_value s = skip_space (drop 1 (skip_space (snd (string_lit s))))"

text \<open>\<open>d.object\<close>, after the opening brace or after a comma.\<close>

function object :: "dec_state \<Rightarrow> bytes \<Rightarrow> dec_state" where
  "object st s =
     (case skip_space s of
        [] \<Rightarrow> st
      | c # s' \<Rightarrow>
          if c = dquote then
            (let st' = store_member (member_key s') (member_value s') st in
             case skip_space (skip_value (member_value s')) of
               [] \<Rightarrow> st'
             | c' # s'' \<Rightarrow> if c' = CHR '','' then object st' s'' else st')
          else st)"
  by pat_completeness auto

lemma length_string_lit: "length (snd (string_lit s)) \<le> length s"
proof (induction s rule: string_lit.induct)
  case 1
  then show ?case by simp
next
  case (2 c s)
  then show ?case by (cases s) (auto simp: le_SucI)
qed

lemma length_skip_nested: "length (skip_nested m d s) \<le> length s"
  by (induction m d s rule: skip_nested.induct) (auto simp: le_SucI)

lemma length_skip_space: "length (skip_space s) \<le> length s"
  by (simp add: skip_space_def length_dropWhile_le)

lemma length_skip_value: "length (skip_value s) \<le> length s"
proof (cases s)
  case Nil
  then show ?thesis by (simp add: skip_value_def)
next
  case (Cons c s')
  have "length (snd (string_lit s')) \<le> Suc (length s')"
    using length_string_lit [of s'] by simp
  moreover have "length (skip_nested Plain 0 s') \<le> Suc (length s')"
    using length_skip_nested [of Plain 0 s'] by simp
  moreover have "length (dropWhile (\<lambda>c. \<not> isDelim c) (c # s')) \<le> Suc (length s')"
    using length_dropWhile_le [of "\<lambda>c. \<not> isDelim c" "c # s'"] by simp
  ultimately show ?thesis
    unfolding Cons skip_value_def by simp
qed

lemma length_member_value: "length (member_value s) \<le> length s"
proof -
  have "length (member_value s) \<le> length (drop 1 (skip_space (snd (string_lit s))))"
    unfolding member_value_def by (rule length_skip_space)
  also have "\<dots> \<le> length (skip_space (snd (string_lit s)))" by simp
  also have "\<dots> \<le> length (snd (string_lit s))" by (rule length_skip_space)
  also have "\<dots> \<le> length s" by (rule length_string_lit)
  finally show ?thesis .
qed

termination object
proof (relation "measure (\<lambda>(st, s). length s)")
  show "wf (measure (\<lambda>(st, s). length s))" by simp
next
  fix st :: dec_state and s :: bytes and c s' st' c' s''
  assume a: "skip_space s = c # s'"
    and b: "skip_space (skip_value (member_value s')) = c' # s''"
  have "length (c' # s'') \<le> length (skip_value (member_value s'))"
    unfolding b [symmetric] by (rule length_skip_space)
  also have "\<dots> \<le> length (member_value s')" by (rule length_skip_value)
  also have "\<dots> \<le> length s'" by (rule length_member_value)
  finally have "length s'' < length (c # s')" by simp
  also have "\<dots> \<le> length s" unfolding a [symmetric] by (rule length_skip_space)
  finally show "((st', s''), (st, s)) \<in> measure (\<lambda>(st, s). length s)" by simp
qed

declare object.simps [simp del]

definition zero_chatMessage :: chatMessage where
  "zero_chatMessage = \<lparr>Message = [], SenderID = [], SenderName = []\<rparr>"

text \<open>
  \<open>d.value\<close> into the struct: an object fills it, \<^verbatim>\<open>null\<close> leaves it, any other value
  is an \<^verbatim>\<open>UnmarshalTypeError\<close>.
\<close>

definition decode :: "bytes \<Rightarrow> chatMessage option" where
  "decode data =
     (case skip_space data of
        [] \<Rightarrow> None
      | c # s \<Rightarrow>
          if c = CHR ''{'' then
            (if snd (object (zero_chatMessage, False) s) then None
             else Some (fst (object (zero_chatMessage, False) s)))
          else if c = CHR ''n'' then Some zero_chatMessage
          else None)"

text \<open>
  Modelled from the spec: \<^verbatim>\<open>json.Unmarshal\<close> into a zero chatMessage (encoding/json, not
  under src/); \<open>None\<close> is a non-nil error.
\<close>

definition json_Unmarshal :: "bytes \<Rightarrow> chatMessage option" where
  "json_Unmarshal data = (if checkValid data then decode data else None)"

text \<open>utf8.ValidString: every byte is ASCII or starts a sequence that DecodeRune accepts.\<close>

fun utf8_Valid :: "bytes \<Rightarrow> bool" where
  "utf8_Valid [] = True"
| "utf8_Valid (b # s) =
     (if byte b < 0x80 then utf8_Valid s
      else DecodeRune (b # s) \<noteq> (RuneError, 1)
           \<and> utf8_Valid (drop (snd (DecodeRune (b # s)) - 1) s))"


section \<open>Properties of the receive loop\<close>

lemma subscribeLoop_skip_self:
  "ReceivedFrom m = self \<Longrightarrow>
   subscribeLoop um self (pre @ NextMsg m # post) = subscribeLoop um self (pre @ post)"
proof (induction um self pre rule: subscribeLoop.induct)
  case (1 unmarshal self)
  then show ?case by simp
next
  case (2 unmarshal self rest)
  then show ?case by simp
next
  case (3 unmarshal self rest)
  then show ?case by simp
next
  case (4 unmarshal self msg rest)
  then show ?case by (simp split: option.split)
qed

lemma subscribeLoop_inbound_origin:
  "cm \<in> set (inbound_of (fst (subscribeLoop um self evs))) \<Longrightarrow>
   \<exists>m. NextMsg m \<in> set evs \<and> ReceivedFrom m \<noteq> self \<and> um (Data m) = Some cm"
proof (induction um self evs rule: subscribeLoop.induct)
  case (4 unmarshal self msg rest)
  then show ?case by (auto split: if_splits option.splits)
qed simp_all

text \<open>
  C1. A message whose \<^verbatim>\<open>ReceivedFrom\<close> equals the session's \<^verbatim>\<open>selfID\<close> is discarded,
  whatever its payload: the loop does exactly what it does without that message, and every
  message it sends on \<^verbatim>\<open>Inbound\<close> was decoded from a message of another sender.
\<close>

theorem C1_self_echo_discarded:
  "(ReceivedFrom m = self \<longrightarrow>
      subscribeLoop um self (pre @ NextMsg m # post) = subscribeLoop um self (pre @ post))
   \<and> (cm \<in> set (inbound_of (fst (subscribeLoop um self evs))) \<longrightarrow>
      (\<exists>m'. NextMsg m' \<in> set evs \<and> ReceivedFrom m' \<noteq> self \<and> um (Data m') = Some cm))"
  using subscribeLoop_skip_self subscribeLoop_inbound_origin by blast

theorem C1_self_echo_discarded_witness:
  "subscribeLoop toy_unmarshal ''me''
     ([NextMsg \<lparr>ReceivedFrom = ''peer'', Data = ''hello''\<rparr>]
        @ NextMsg \<lparr>ReceivedFrom = ''me'', Data = ''hello''\<rparr> # [NextErr])
   = subscribeLoop toy_unmarshal ''me''
       ([NextMsg \<lparr>ReceivedFrom = ''peer'', Data = ''hello''\<rparr>] @ [NextErr])
   \<and> inbound_of (fst (subscribeLoop toy_unmarshal ''me''
       [NextMsg \<lparr>ReceivedFrom = ''peer'', Data = ''hello''\<rparr>,
        NextMsg \<lparr>ReceivedFrom = ''me'', Data = ''hello''\<rparr>, NextErr])) = [hello_msg]"
  using C1_self_echo_discarded [of "\<lparr>ReceivedFrom = ''me'', Data = ''hello''\<rparr>" "''me''"
      toy_unmarshal "[NextMsg \<lparr>ReceivedFrom = ''peer'', Data = ''hello''\<rparr>]" "[NextErr]"]
  by (simp add: toy_unmarshal_def)

text \<open>
  C10. Whether a message is dropped as the session's own is decided by the transport-level
  \<^verbatim>\<open>ReceivedFrom\<close> alone, before the payload is decoded: a message received from
  \<^verbatim>\<open>selfID\<close> leaves no trace (no log entry, no delivery) for every decoder and every
  payload, one that does not decode included; and a message received from another peer is
  delivered whatever \<^verbatim>\<open>senderid\<close> its envelope carries.
\<close>

theorem C10_self_check_before_decoding:
  "(ReceivedFrom m = self \<longrightarrow>
      subscribeLoop um self (NextMsg m # rest) = subscribeLoop um self rest)
   \<and> (ReceivedFrom m \<noteq> self \<longrightarrow> um (Data m) = Some cm \<longrightarrow>
      subscribeLoop um self (NextMsg m # rest) =
        (ToInbound cm # fst (subscribeLoop um self rest), snd (subscribeLoop um self rest)))"
  by simp

theorem C10_self_check_before_decoding_witness:
  "subscribeLoop toy_unmarshal ''me'' [NextMsg \<lparr>ReceivedFrom = ''me'', Data = ''{oops''\<rparr>]
     = ([], Running)
   \<and> toy_unmarshal ''{oops'' = None
   \<and> SenderID hello_msg = ''me''
   \<and> subscribeLoop toy_unmarshal ''me'' [NextMsg \<lparr>ReceivedFrom = ''peer'', Data = ''hello''\<rparr>]
     = ([ToInbound hello_msg], Running)"
  using C10_self_check_before_decoding [of "\<lparr>ReceivedFrom = ''me'', Data = ''{oops''\<rparr>" "''me''"
      toy_unmarshal "[]" hello_msg]
    C10_self_check_before_decoding [of "\<lparr>ReceivedFrom = ''peer'', Data = ''hello''\<rparr>" "''me''"
      toy_unmarshal "[]" hello_msg]
  by (simp add: toy_unmarshal_def hello_msg_def)

section \<open>Properties of joining and leaving\<close>

text \<open>
  C6. When the topic join or the subscribe step fails, \<^verbatim>\<open>JoinChatRoom\<close> returns that
  error and no room; it returns a room only when both steps succeeded, and that room holds
  the handles of the two steps.
\<close>

theorem C6_join_no_partial_session:
  "(PubSub_Join p (topicName r) = Inl e \<longrightarrow> JoinChatRoom p u r = Inl e)
   \<and> (PubSub_Join p (topicName r) = Inr t \<longrightarrow> Topic_Subscribe p t = Inl e \<longrightarrow>
        JoinChatRoom p u r = Inl e)
   \<and> (JoinChatRoom p u r = Inr cr \<longrightarrow>
        PubSub_Join p (topicName r) = Inr (psTopic cr)
        \<and> Topic_Subscribe p (psTopic cr) = Inr (psSub cr))"
  by (auto simp: JoinChatRoom_def split: sum.splits)

theorem C6_join_no_partial_session_witness:
  "PubSub_Join net0 (topicName ''lobby'') = Inl ''topic already exists''
   \<and> JoinChatRoom net0 ''bob'' ''lobby'' = Inl ''topic already exists''
   \<and> PubSub_Join net1 (topicName ''lobby'') = Inr (Topic ''room-peerchat-lobby'')
   \<and> Topic_Subscribe net1 (Topic ''room-peerchat-lobby'') = Inl ''pubsub is shutting down''
   \<and> JoinChatRoom net1 ''bob'' ''lobby'' = Inl ''pubsub is shutting down''
   \<and> (\<exists>cr. JoinChatRoom net0 ''bob'' ''hub'' = Inr cr
          \<and> PubSub_Join net0 (topicName ''hub'') = Inr (psTopic cr)
          \<and> Topic_Subscribe net0 (psTopic cr) = Inr (psSub cr))"
proof -
  have j0: "PubSub_Join net0 (topicName ''lobby'') = Inl ''topic already exists''"
    by (simp add: net0_def PubSub_Join_def topicName_def)
  have j1: "PubSub_Join net1 (topicName ''lobby'') = Inr (Topic ''room-peerchat-lobby'')"
    by (simp add: net1_def PubSub_Join_def topicName_def)
  have s1: "Topic_Subscribe net1 (Topic ''room-peerchat-lobby'') = Inl ''pubsub is shutting down''"
    by (simp add: net1_def Topic_Subscribe_def)
  obtain cr where cr: "JoinChatRoom net0 ''bob'' ''hub'' = Inr cr"
    by (simp add: JoinChatRoom_def PubSub_Join_def Topic_Subscribe_def topicName_def net0_def)
  show ?thesis
    using C6_join_no_partial_session [where p = net0 and r = "''lobby''" and u = "''bob''"
        and e = "''topic already exists''" and t = "Topic []" and cr = room0]
      C6_join_no_partial_session [where p = net1 and r = "''lobby''" and u = "''bob''"
        and e = "''pubsub is shutting down''" and t = "Topic ''room-peerchat-lobby''" and cr = room0]
      C6_join_no_partial_session [where p = net0 and r = "''hub''" and u = "''bob''"
        and e = "[]" and t = "Topic []" and cr = cr]
      j0 j1 s1 cr
    by simp
qed

text \<open>
  C7. The topic name is the literal \<^verbatim>\<open>room-peerchat\<close>, then \<^verbatim>\<open>-\<close>, then the room name
  byte for byte: equal room names give equal topic names and different room names (also
  when they differ in case only) different ones; the room that \<^verbatim>\<open>JoinChatRoom\<close> returns
  holds the topic of that name.
\<close>

theorem C7_topic_name:
  "topicName r = ''room-peerchat-'' @ r
   \<and> (topicName r1 = topicName r2) = (r1 = r2)
   \<and> (JoinChatRoom p u r = Inr cr \<longrightarrow> psTopic cr = Topic (''room-peerchat-'' @ r))"
  by (auto simp: JoinChatRoom_def PubSub_Join_def topicName_def split: sum.splits option.splits)

theorem C7_topic_name_witness:
  "topicName ''Hub'' = ''room-peerchat-Hub''
   \<and> topicName ''Hub'' \<noteq> topicName ''hub''
   \<and> (\<exists>cr. JoinChatRoom net0 ''bob'' ''Hub'' = Inr cr \<and> psTopic cr = Topic ''room-peerchat-Hub'')"
proof -
  obtain cr where cr: "JoinChatRoom net0 ''bob'' ''Hub'' = Inr cr"
    by (simp add: JoinChatRoom_def PubSub_Join_def Topic_Subscribe_def topicName_def net0_def)
  from C7_topic_name [where r = "''Hub''" and ?r1.0 = "''Hub''" and ?r2.0 = "''hub''"
      and p = net0 and u = "''bob''" and cr = cr] cr
  show ?thesis by (simp add: topicName_def)
qed

text \<open>
  \<^verbatim>\<open>Exit\<close> calls \<^verbatim>\<open>psSub.Cancel\<close>, \<^verbatim>\<open>psTopic.Close\<close> and \<^verbatim>\<open>psCancel\<close> and does
  nothing else: it leaves every channel of the room as it is. \<^verbatim>\<open>close(Inbound)\<close> is run
  by the receive loop alone, once when it returns and never before. What a repeated call of
  the three operations does is decided in the substrate and in \<^verbatim>\<open>context\<close>.
\<close>

lemma subscribeLoop_close_once:
  "count_list (fst (subscribeLoop um self evs)) CloseInbound
     = (if snd (subscribeLoop um self evs) = Returned then 1 else 0)"
  by (induction um self evs rule: subscribeLoop.induct) (simp_all split: option.split)

lemma Exit_leaves_channels:
  "Inbound_closed (Exit cr) = Inbound_closed cr
   \<and> Inbound (Exit cr) = Inbound cr \<and> Outbound (Exit cr) = Outbound cr \<and> Logs (Exit cr) = Logs cr"
  by (simp add: Exit_def)

section \<open>Properties of the command interpreter\<close>

lemma send_Logs_eq:
  "send_Logs l ui =
     (if Logs (cur ui) = [] then Done (ui\<lparr>rooms := (rooms ui)(ChatRoom ui := (cur ui)\<lparr>Logs := [l]\<rparr>)\<rparr>)
      else Blocked)"
  by (simp add: send_Logs_def chan_send_def)

text \<open>
  C5. The line \<^verbatim>\<open>/room\<close> becomes the command \<^verbatim>\<open>/room\<close> with an empty argument, for which
  \<^verbatim>\<open>processCommand\<close> does one thing: it sends the error log on \<^verbatim>\<open>Logs\<close> (no room is
  joined, \<^verbatim>\<open>ui.ChatRoom\<close> stays), and the entry is put on the channel when its buffer is
  free. The line \<^verbatim>\<open>/room lobby2\<close> becomes the command with argument \<^verbatim>\<open>lobby2\<close>, for
  which \<^verbatim>\<open>processCommand\<close> is \<^verbatim>\<open>switchRoom("lobby2")\<close>. A line that does not start
  with \<^verbatim>\<open>/\<close> is sent on the message channel as it is when it is not empty; for the empty
  line nothing is sent.
\<close>

theorem C5_command_parsing:
  "doneFunc KeyEnter ''/room'' = (Some (ToCmdChan \<lparr>CommandType = ''/room'', Argument = []\<rparr>), [])
   \<and> processCommand \<lparr>CommandType = ''/room'', Argument = []\<rparr> ui
       = send_Logs \<lparr>Prefix = ''error'', Msg = ''missing room name''\<rparr> ui
   \<and> (Logs (cur ui) = [] \<longrightarrow>
        processCommand \<lparr>CommandType = ''/room'', Argument = []\<rparr> ui
          = Done (ui\<lparr>rooms := (rooms ui)(ChatRoom ui :=
               (cur ui)\<lparr>Logs := [\<lparr>Prefix = ''error'', Msg = ''missing room name''\<rparr>]\<rparr>)\<rparr>))
   \<and> doneFunc KeyEnter ''/room lobby2''
       = (Some (ToCmdChan \<lparr>CommandType = ''/room'', Argument = ''lobby2''\<rparr>), [])
   \<and> processCommand \<lparr>CommandType = ''/room'', Argument = ''lobby2''\<rparr> ui = switchRoom ''lobby2'' ui
   \<and> doneFunc KeyEnter ''hello world'' = (Some (ToMsgChan ''hello world''), [])
   \<and> (\<not> HasPrefix line ''/'' \<longrightarrow>
        doneFunc KeyEnter line = (if line = [] then (None, []) else (Some (ToMsgChan line), [])))"
  by (simp add: doneFunc_def HasPrefix_def processCommand_def send_Logs_eq numeral_2_eq_2)

theorem C5_command_parsing_witness:
  "Logs (cur ui0) = []
   \<and> processCommand \<lparr>CommandType = ''/room'', Argument = []\<rparr> ui0 =
       Done (ui0\<lparr>rooms := (rooms ui0)(ChatRoom ui0 :=
               (cur ui0)\<lparr>Logs := [\<lparr>Prefix = ''error'', Msg = ''missing room name''\<rparr>]\<rparr>)\<rparr>)
   \<and> \<not> HasPrefix ''hi /room x'' ''/''
   \<and> doneFunc KeyEnter ''hi /room x'' = (Some (ToMsgChan ''hi /room x''), [])"
proof -
  have l: "Logs (cur ui0) = []"
    by (simp add: ui0_def room0_def cur_def)
  have h: "\<not> HasPrefix ''hi /room x'' ''/''"
    by (simp add: HasPrefix_def)
  have n: "''hi /room x'' \<noteq> []" by simp
  from C5_command_parsing [of ui0 "''hi /room x''"] l h
  have "processCommand \<lparr>CommandType = ''/room'', Argument = []\<rparr> ui0 =
       Done (ui0\<lparr>rooms := (rooms ui0)(ChatRoom ui0 :=
               (cur ui0)\<lparr>Logs := [\<lparr>Prefix = ''error'', Msg = ''missing room name''\<rparr>]\<rparr>)\<rparr>)"
    and "doneFunc KeyEnter ''hi /room x''
      = (if ''hi /room x'' = [] then (None, []) else (Some (ToMsgChan ''hi /room x''), []))"
    by blast+
  with l h n show ?thesis by (simp only: if_False simp_thms)
qed

theorem C5_command_parsing_counterexample:
  "\<not> HasPrefix [] ''/''
   \<and> doneFunc KeyEnter [] = (None, [])
   \<and> Logs (cur ui_log_pending) = [\<lparr>Prefix = ''suberr'', Msg = ''failed to unmarshal JSON''\<rparr>]
   \<and> processCommand \<lparr>CommandType = ''/room'', Argument = []\<rparr> ui_log_pending = Blocked"
  by (simp add: HasPrefix_def doneFunc_def processCommand_def send_Logs_eq cur_def
      ui_log_pending_def ui0_def)

text \<open>
  The rename command. \<^verbatim>\<open>/user n\<close> with a non-empty \<open>n\<close> writes \<open>n\<close> into the
  \<^verbatim>\<open>UserName\<close> of the room \<^verbatim>\<open>ui.ChatRoom\<close> points to and sets the label: the pointer,
  the other rooms and every other field of the room stay. The publish loop reads
  \<^verbatim>\<open>UserName\<close> for each message it takes from \<^verbatim>\<open>Outbound\<close>: the payloads it hands to
  \<^verbatim>\<open>Publish\<close> are, in order, the encodings of the envelopes that carry the name the room
  holds. With an empty argument the command is one send on \<^verbatim>\<open>ui.Logs\<close>, which cannot
  complete when an entry waits there.
\<close>

lemma user_command_renames:
  "n \<noteq> [] \<Longrightarrow>
   processCommand \<lparr>CommandType = ''/user'', Argument = n\<rparr> ui
     = Done (ui\<lparr>rooms := (rooms ui)(ChatRoom ui := (cur ui)\<lparr>UserName := n\<rparr>),
                InputBox_label := n @ '' > ''\<rparr>)"
  by (simp add: processCommand_def Let_def cur_def UpdateUser_def)

lemma publishLoop_envelopes:
  "published (fst (publishLoop marshal pretty cr (map FromOutbound msgs @ rest)))
     = List.map_filter
         (\<lambda>message. marshal \<lparr>Message = message, SenderID = pretty (selfID cr),
                               SenderName = UserName cr\<rparr>) msgs
       @ published (fst (publishLoop marshal pretty cr rest))"
  by (induction msgs) (simp_all add: List.map_filter_simps split: option.split)

lemma missing_argument_blocks:
  "Logs (cur ui) \<noteq> [] \<Longrightarrow>
   processCommand \<lparr>CommandType = ''/user'', Argument = []\<rparr> ui = Blocked
   \<and> processCommand \<lparr>CommandType = ''/room'', Argument = []\<rparr> ui = Blocked"
  by (simp add: processCommand_def send_Logs_eq)

text \<open>
  C8. An entry waits on \<^verbatim>\<open>ui.Logs\<close> (the receive loop has sent it for a payload that did
  not decode) and the user types \<^verbatim>\<open>/user\<close>. The line becomes the command \<^verbatim>\<open>/user\<close>
  with an empty argument, and \<^verbatim>\<open>processCommand\<close> sends the error log on \<^verbatim>\<open>ui.Logs\<close>:
  the buffer is full and the goroutine that would receive is the one that sends, so the
  call does not return and the error log is not put on the channel.
\<close>

theorem C8_rename_missing_argument_blocks:
  "Logs (cur ui_log_pending) = [\<lparr>Prefix = ''suberr'', Msg = ''failed to unmarshal JSON''\<rparr>]
   \<and> doneFunc KeyEnter ''/user''
       = (Some (ToCmdChan \<lparr>CommandType = ''/user'', Argument = []\<rparr>), [])
   \<and> processCommand \<lparr>CommandType = ''/user'', Argument = []\<rparr> ui_log_pending = Blocked"
  by (simp add: doneFunc_def HasPrefix_def numeral_2_eq_2 processCommand_def send_Logs_eq cur_def
      ui_log_pending_def ui0_def)

section \<open>Switching rooms when the join fails\<close>

text \<open>
  When \<^verbatim>\<open>JoinChatRoom\<close> fails, \<^verbatim>\<open>switchRoom\<close> has sent the info log on \<^verbatim>\<open>ui.Logs\<close> and
  sends the error log on the same channel before it returns. The channel holds one entry
  and nothing receives from it while \<^verbatim>\<open>switchRoom\<close> runs, so the second send does not
  complete (nor the first, when an entry was buffered already): in every state the call
  neither returns nor puts the error log on the channel.
\<close>

lemma cur_rooms_update:
  "cur (ui\<lparr>rooms := (rooms ui)(ChatRoom ui := r)\<rparr>) = r"
  by (simp add: cur_def)

lemma send_Logs_Done:
  assumes "send_Logs l ui = Done ui1"
  shows "cur ui1 = (cur ui)\<lparr>Logs := [l]\<rparr>" and "send_Logs l' ui1 = Blocked"
proof -
  from assms have ui1: "ui1 = ui\<lparr>rooms := (rooms ui)(ChatRoom ui := (cur ui)\<lparr>Logs := [l]\<rparr>)\<rparr>"
    by (simp add: send_Logs_eq split: if_splits)
  show c: "cur ui1 = (cur ui)\<lparr>Logs := [l]\<rparr>"
    unfolding ui1 by (rule cur_rooms_update)
  show "send_Logs l' ui1 = Blocked"
    by (simp add: send_Logs_eq c)
qed

lemma switchRoom_join_fails:
  assumes "JoinChatRoom (Host (cur ui)) (UserName (cur ui)) roomName = Inl err"
  shows "switchRoom roomName ui = Blocked"
proof (cases "send_Logs \<lparr>Prefix = ''info'',
    Msg = ''switching to room '' @ [CHR 0x27] @ roomName @ [CHR 0x27]\<rparr> ui")
  case Blocked
  then show ?thesis by (simp add: switchRoom_def)
next
  case (Done ui1)
  have j1: "JoinChatRoom (Host (cur ui1)) (UserName (cur ui1)) roomName = Inl err"
    using assms by (simp add: send_Logs_Done(1) [OF Done])
  show ?thesis
    unfolding switchRoom_def Done by (simp add: j1 send_Logs_Done(2) [OF Done])
qed

text \<open>
  C3. The room \<^verbatim>\<open>lobby\<close> is joined and its log channel is empty; the user types
  \<^verbatim>\<open>/room lobby\<close>, and the substrate refuses to join a topic that is joined already.
  \<^verbatim>\<open>processCommand\<close> calls \<^verbatim>\<open>switchRoom\<close>, which does not return: no error log is put
  on the channel, and the goroutine that would show it is the one that waits.
\<close>

theorem C3_switchRoom_join_fails_blocks:
  "JoinChatRoom (Host (cur ui0)) (UserName (cur ui0)) ''lobby'' = Inl ''topic already exists''
   \<and> Logs (cur ui0) = []
   \<and> doneFunc KeyEnter ''/room lobby''
       = (Some (ToCmdChan \<lparr>CommandType = ''/room'', Argument = ''lobby''\<rparr>), [])
   \<and> processCommand \<lparr>CommandType = ''/room'', Argument = ''lobby''\<rparr> ui0 = Blocked
   \<and> switchRoom ''lobby'' ui0 = Blocked"
proof -
  have j: "JoinChatRoom (Host (cur ui0)) (UserName (cur ui0)) ''lobby'' = Inl ''topic already exists''"
    by (simp add: JoinChatRoom_def PubSub_Join_def topicName_def cur_def ui0_def room0_def net0_def)
  have b: "switchRoom ''lobby'' ui0 = Blocked"
    by (rule switchRoom_join_fails [OF j])
  have d: "doneFunc KeyEnter ''/room lobby''
       = (Some (ToCmdChan \<lparr>CommandType = ''/room'', Argument = ''lobby''\<rparr>), [])"
    by (simp add: doneFunc_def HasPrefix_def numeral_2_eq_2)
  have l: "Logs (cur ui0) = []"
    by (simp add: cur_def ui0_def room0_def)
  show ?thesis using j b d l by (simp add: processCommand_def)
qed


section \<open>Properties of the wire format\<close>

lemma byte_lt_256: "byte c < 256"
  unfolding byte_def by (metis of_char_mod_256 mod_less_divisor zero_less_numeral)

lemma char_of_byte: "char_of (byte c) = c"
  by (simp add: byte_def)

lemma byte_char_of: "n < 256 \<Longrightarrow> byte (char_of n) = n"
  by (simp add: byte_def)

lemma DecodeRune_ascii: "byte b < 0x80 \<Longrightarrow> DecodeRune (b # s) = (byte b, 1)"
  by (simp add: DecodeRune_def)

lemma DecodeRune_2:
  assumes "0xC2 \<le> byte b" "byte b < 0xE0" "0x80 \<le> byte b1" "byte b1 \<le> 0xBF"
  shows "DecodeRune (b # b1 # q) = ((byte b mod 32) * 64 + byte b1 mod 64, 2)"
  using assms by (simp add: DecodeRune_def runeLen_def acceptLo_def acceptHi_def)

lemma DecodeRune_3:
  assumes "0xE0 \<le> byte b" "byte b < 0xF0"
    "acceptLo (byte b) \<le> byte b1" "byte b1 \<le> acceptHi (byte b)"
    "0x80 \<le> byte b2" "byte b2 \<le> 0xBF"
  shows "DecodeRune (b # b1 # b2 # q)
    = ((byte b mod 16) * 4096 + (byte b1 mod 64) * 64 + byte b2 mod 64, 3)"
proof -
  have "runeLen (byte b) = 3" using assms(1,2) by (simp add: runeLen_def)
  then show ?thesis using assms by (simp add: DecodeRune_def)
qed

lemma DecodeRune_4:
  assumes "0xF0 \<le> byte b" "byte b \<le> 0xF4"
    "acceptLo (byte b) \<le> byte b1" "byte b1 \<le> acceptHi (byte b)"
    "0x80 \<le> byte b2" "byte b2 \<le> 0xBF" "0x80 \<le> byte b3" "byte b3 \<le> 0xBF"
  shows "DecodeRune (b # b1 # b2 # b3 # q)
    = ((byte b mod 8) * 262144 + (byte b1 mod 64) * 4096 + (byte b2 mod 64) * 64 + byte b3 mod 64, 4)"
proof -
  have "runeLen (byte b) = 4" using assms(1,2) by (simp add: runeLen_def)
  then show ?thesis using assms by (simp add: DecodeRune_def)
qed

lemma DR_bad_lead:
  "0x80 \<le> byte b \<Longrightarrow> byte b < 0xC2 \<or> 0xF4 < byte b \<Longrightarrow> DecodeRune (b # s) = (RuneError, 1)"
  by (simp add: DecodeRune_def)

lemma DR_short:
  "0x80 \<le> byte b \<Longrightarrow> length (b # s) < runeLen (byte b) \<Longrightarrow> DecodeRune (b # s) = (RuneError, 1)"
  by (simp add: DecodeRune_def)

lemma DR_bad_b1:
  "0x80 \<le> byte b \<Longrightarrow> byte b1 < acceptLo (byte b) \<or> acceptHi (byte b) < byte b1 \<Longrightarrow>
   DecodeRune (b # b1 # q) = (RuneError, 1)"
  by (simp add: DecodeRune_def)

lemma DR_bad_b2:
  "0x80 \<le> byte b \<Longrightarrow> 2 < runeLen (byte b) \<Longrightarrow> byte b2 < 0x80 \<or> 0xBF < byte b2 \<Longrightarrow>
   DecodeRune (b # b1 # b2 # q) = (RuneError, 1)"
  by (simp add: DecodeRune_def)

lemma DR_bad_b3:
  "0x80 \<le> byte b \<Longrightarrow> 3 < runeLen (byte b) \<Longrightarrow> byte b3 < 0x80 \<or> 0xBF < byte b3 \<Longrightarrow>
   DecodeRune (b # b1 # b2 # b3 # q) = (RuneError, 1)"
  by (simp add: DecodeRune_def)

lemma accept_range: "0x80 \<le> acceptLo n" "acceptHi n \<le> 0xBF"
  by (simp_all add: acceptLo_def acceptHi_def)

lemma DecodeRune_inv:
  assumes hi: "0x80 \<le> byte b" and ok: "DecodeRune (b # s) \<noteq> (RuneError, 1)"
  shows "(\<exists>b1 q. s = b1 # q \<and> seq2 b b1)
       \<or> (\<exists>b1 b2 q. s = b1 # b2 # q \<and> seq3 b b1 b2)
       \<or> (\<exists>b1 b2 b3 q. s = b1 # b2 # b3 # q \<and> seq4 b b1 b2 b3)"
proof -
  have "\<not> (byte b < 0xC2 \<or> 0xF4 < byte b)"
    using DR_bad_lead [OF hi, of s] ok by blast
  then have lead: "0xC2 \<le> byte b" "byte b \<le> 0xF4" by simp_all
  have "\<not> length (b # s) < runeLen (byte b)"
    using DR_short [OF hi, of s] ok by blast
  then have len: "runeLen (byte b) \<le> Suc (length s)" by simp
  have "2 \<le> runeLen (byte b)" by (simp add: runeLen_def)
  with len obtain b1 q where s: "s = b1 # q"
    by (cases s) auto
  have "\<not> (byte b1 < acceptLo (byte b) \<or> acceptHi (byte b) < byte b1)"
    using DR_bad_b1 [OF hi, of b1 q] ok s by blast
  then have b1: "acceptLo (byte b) \<le> byte b1" "byte b1 \<le> acceptHi (byte b)" by simp_all
  show ?thesis
  proof (cases "byte b < 0xE0")
    case True
    with lead b1 accept_range [of "byte b"] have "seq2 b b1"
      by (simp add: seq2_def)
    with s show ?thesis by blast
  next
    case False
    then have l3: "2 < runeLen (byte b)" by (simp add: runeLen_def)
    with len s obtain b2 q' where q: "q = b2 # q'"
      by (cases q) auto
    have "\<not> (byte b2 < 0x80 \<or> 0xBF < byte b2)"
      using DR_bad_b2 [OF hi l3, of b2 b1 q'] ok s q by blast
    then have b2: "0x80 \<le> byte b2" "byte b2 \<le> 0xBF" by simp_all
    show ?thesis
    proof (cases "byte b < 0xF0")
      case True
      with False b1 b2 have "seq3 b b1 b2" by (simp add: seq3_def)
      with s q show ?thesis by blast
    next
      case F: False
      then have l4: "3 < runeLen (byte b)" by (simp add: runeLen_def)
      with len s q obtain b3 q'' where q': "q' = b3 # q''"
        by (cases q') auto
      have "\<not> (byte b3 < 0x80 \<or> 0xBF < byte b3)"
        using DR_bad_b3 [OF hi l4, of b3 b1 b2 q''] ok s q q' by blast
      then have b3: "0x80 \<le> byte b3" "byte b3 \<le> 0xBF" by simp_all
      from F lead b1 b2 b3 have "seq4 b b1 b2 b3" by (simp add: seq4_def)
      with s q q' show ?thesis by blast
    qed
  qed
qed

lemma DecodeRune_seq2: "seq2 b b1 \<Longrightarrow> DecodeRune (b # b1 # q) = (rune2 b b1, 2)"
  using DecodeRune_2 [of b b1 q] by (simp add: seq2_def rune2_def)

lemma DecodeRune_seq3: "seq3 b b1 b2 \<Longrightarrow> DecodeRune (b # b1 # b2 # q) = (rune3 b b1 b2, 3)"
  using DecodeRune_3 [of b b1 b2 q] by (simp add: seq3_def rune3_def)

lemma DecodeRune_seq4: "seq4 b b1 b2 b3 \<Longrightarrow> DecodeRune (b # b1 # b2 # b3 # q) = (rune4 b b1 b2 b3, 4)"
  using DecodeRune_4 [of b b1 b2 b3 q] by (simp add: seq4_def rune4_def)

lemma add_mul_mod: "a < n \<Longrightarrow> (k * n + a) mod n = (a::nat)"
  by simp

lemma add_mul_div: "a < n \<Longrightarrow> (k * n + a) div n = (k::nat)"
  by simp

lemma mod64_cont: "c < 64 \<Longrightarrow> (128 + c) mod 64 = (c::nat)"
  using add_mul_mod [of c 64 2] by simp

lemma offset: "(k::nat) \<le> n \<Longrightarrow> \<exists>a. n = k + a"
  by (rule exI [of _ "n - k"]) simp

lemma Encode_rune2:
  assumes "seq2 b b1"
  shows "EncodeRune (rune2 b b1) = [b, b1]"
proof -
  from assms obtain a c where b: "byte b = 192 + a" and a: "2 \<le> a" "a < 32"
    and b1: "byte b1 = 128 + c" and c: "c < 64"
    unfolding seq2_def using offset [of 194 "byte b"] offset [of 128 "byte b1"] by auto
  have "(192 + a) mod 32 = a" using add_mul_mod [of a 32 6] a by simp
  then have r: "rune2 b b1 = a * 64 + c"
    by (simp add: rune2_def b b1 mod64_cont c)
  have lo: "\<not> a * 64 + c \<le> 127" using a by simp
  have hi: "a * 64 + c \<le> 2047" using a c by simp
  have "EncodeRune (a * 64 + c) = [char_of (192 + a), char_of (128 + c)]"
    using lo hi c by (simp add: EncodeRune_def)
  then show ?thesis
    unfolding r b [symmetric] b1 [symmetric] by (simp add: char_of_byte)
qed

lemma Encode_rune3:
  assumes "seq3 b b1 b2"
  shows "EncodeRune (rune3 b b1 b2) = [b, b1, b2]"
proof -
  from assms obtain a c d where b: "byte b = 224 + a" and a: "a < 16"
    and b1: "byte b1 = 128 + c" and c: "c < 64"
    and b2: "byte b2 = 128 + d" and d: "d < 64"
    unfolding seq3_def
    using offset [of 224 "byte b"] offset [of 128 "byte b1"] offset [of 128 "byte b2"]
      accept_range [of "byte b"]
    by auto
  from assms have lo1: "a = 0 \<Longrightarrow> 32 \<le> c" and hi1: "a = 13 \<Longrightarrow> c < 32"
    by (auto simp: seq3_def b b1 acceptLo_def acceptHi_def)
  have "(224 + a) mod 16 = a" using add_mul_mod [of a 16 14] a by simp
  then have r: "rune3 b b1 b2 = a * 4096 + c * 64 + d"
    by (simp add: rune3_def b b1 b2 mod64_cont c d)
  define r' where "r' = a * 4096 + c * 64 + d"
  have e: "r' = (a * 64 + c) * 64 + d" by (simp add: r'_def)
  have lo: "\<not> r' \<le> 2047"
    unfolding r'_def using lo1 by (cases "a = 0") auto
  have sur: "\<not> (55296 \<le> r' \<and> r' \<le> 57343)"
  proof (cases "a = 13")
    case True
    with hi1 d show ?thesis unfolding r'_def by simp
  next
    case False
    then have "a \<le> 12 \<or> 14 \<le> a" by arith
    then show ?thesis unfolding r'_def using c d by auto
  qed
  have hi: "r' \<le> 65535" "\<not> 1114111 < r'" unfolding r'_def using a c d by simp_all
  have x0: "r' div 4096 = a"
    unfolding r'_def using add_mul_div [of "c * 64 + d" 4096 a] c d by simp
  have "r' div 64 = a * 64 + c" unfolding e using d by (rule add_mul_div)
  moreover have "(a * 64 + c) mod 64 = c" using c by (rule add_mul_mod)
  ultimately have x1: "r' div 64 mod 64 = c" by simp
  have x2: "r' mod 64 = d" unfolding e using d by (rule add_mul_mod)
  have "EncodeRune r' = [char_of (224 + a), char_of (128 + c), char_of (128 + d)]"
    unfolding EncodeRune_def using lo hi by (simp add: x0 x1 x2 sur)
  then show ?thesis
    unfolding r r'_def [symmetric] b [symmetric] b1 [symmetric] b2 [symmetric]
    by (simp add: char_of_byte)
qed

lemma Encode_rune4:
  assumes "seq4 b b1 b2 b3"
  shows "EncodeRune (rune4 b b1 b2 b3) = [b, b1, b2, b3]"
proof -
  from assms obtain a c d e where b: "byte b = 240 + a" and a: "a \<le> 4"
    and b1: "byte b1 = 128 + c" and c: "c < 64"
    and b2: "byte b2 = 128 + d" and d: "d < 64"
    and b3: "byte b3 = 128 + e" and e: "e < 64"
    unfolding seq4_def
    using offset [of 240 "byte b"] offset [of 128 "byte b1"] offset [of 128 "byte b2"]
      offset [of 128 "byte b3"] accept_range [of "byte b"]
    by auto
  from assms have lo1: "a = 0 \<Longrightarrow> 16 \<le> c" and hi1: "a = 4 \<Longrightarrow> c < 16"
    by (auto simp: seq4_def b b1 acceptLo_def acceptHi_def)
  have "(240 + a) mod 8 = a" using add_mul_mod [of a 8 30] a by simp
  then have r: "rune4 b b1 b2 b3 = a * 262144 + c * 4096 + d * 64 + e"
    by (simp add: rune4_def b b1 b2 b3 mod64_cont c d e)
  define r' where "r' = a * 262144 + c * 4096 + d * 64 + e"
  have e1: "r' = ((a * 64 + c) * 64 + d) * 64 + e" by (simp add: r'_def)
  have e2: "r' = a * 262144 + (c * 4096 + d * 64 + e)" by (simp add: r'_def)
  have lo: "\<not> r' \<le> 65535"
    unfolding r'_def using lo1 by (cases "a = 0") auto
  have hi: "\<not> 1114111 < r'"
  proof (cases "a = 4")
    case True
    with hi1 d e show ?thesis unfolding r'_def by simp
  next
    case False
    with a have "a \<le> 3" by simp
    then show ?thesis unfolding r'_def using c d e by simp
  qed
  have x0: "r' div 262144 = a"
    unfolding e2 using add_mul_div [of "c * 4096 + d * 64 + e" 262144 a] c d e by simp
  have d1: "r' div 64 = (a * 64 + c) * 64 + d" unfolding e1 using e by (rule add_mul_div)
  have d2: "r' div 4096 = a * 64 + c"
  proof -
    have "r' = (a * 64 + c) * 4096 + (d * 64 + e)" by (simp add: r'_def)
    then show ?thesis using add_mul_div [of "d * 64 + e" 4096 "a * 64 + c"] d e by simp
  qed
  have x1: "r' div 4096 mod 64 = c" unfolding d2 using c by (rule add_mul_mod)
  have x2: "r' div 64 mod 64 = d" unfolding d1 using d by (rule add_mul_mod)
  have x3: "r' mod 64 = e" unfolding e1 using e by (rule add_mul_mod)
  have "EncodeRune r' = [char_of (240 + a), char_of (128 + c), char_of (128 + d), char_of (128 + e)]"
    unfolding EncodeRune_def using lo hi by (simp add: x0 x1 x2 x3)
  then show ?thesis
    unfolding r r'_def [symmetric] b [symmetric] b1 [symmetric] b2 [symmetric] b3 [symmetric]
    by (simp add: char_of_byte)
qed

lemma hex_table:
  "\<forall>n \<in> set [0..<16]. isHex (hex n) \<and> hexval (hex n) = Some n \<and> hex n \<noteq> dquote \<and> hex n \<noteq> bslash"
  by code_simp

lemma hex_props:
  assumes "n < 16"
  shows "isHex (hex n)" "hexval (hex n) = Some n" "hex n \<noteq> dquote" "hex n \<noteq> bslash"
proof -
  from assms have "n \<in> set [0..<16]" by simp
  with hex_table have "isHex (hex n) \<and> hexval (hex n) = Some n \<and> hex n \<noteq> dquote \<and> hex n \<noteq> bslash"
    by blast
  then show "isHex (hex n)" "hexval (hex n) = Some n" "hex n \<noteq> dquote" "hex n \<noteq> bslash"
    by simp_all
qed

lemma byte_dquote_bslash: "byte dquote = 0x22" "byte bslash = 0x5C"
  by (simp_all add: byte_def)

lemma high_not_special: "0x80 \<le> byte x \<Longrightarrow> x \<noteq> dquote \<and> x \<noteq> bslash \<and> \<not> byte x < 0x20"
  using byte_dquote_bslash by auto

text \<open>Bytes that a string literal holds as they are.\<close>

lemma string_lit_plain:
  "\<forall>x \<in> set pre. x \<noteq> dquote \<and> x \<noteq> bslash \<Longrightarrow>
   string_lit (pre @ Y) = (pre @ fst (string_lit Y), snd (string_lit Y))"
  by (induction pre) simp_all

lemma scan_plain:
  "\<forall>x \<in> set pre. x \<noteq> dquote \<and> x \<noteq> bslash \<and> \<not> byte x < 0x20 \<Longrightarrow>
   foldl scan_byte (stateInString, ps) pre = (stateInString, ps)"
  by (induction pre) simp_all

lemma string_lit_esc:
  "string_lit (bslash # e # Y) = (bslash # e # fst (string_lit Y), snd (string_lit Y))"
  by simp

lemma string_lit_escu:
  assumes "\<forall>x \<in> set hs. x \<noteq> dquote \<and> x \<noteq> bslash"
  shows "string_lit ((bslash # CHR ''u'' # hs) @ Y)
     = ((bslash # CHR ''u'' # hs) @ fst (string_lit Y), snd (string_lit Y))"
  using string_lit_plain [OF assms, of Y] by simp

lemma scan_escu:
  assumes "isHex h1" "isHex h2" "isHex h3" "isHex h4"
  shows "foldl scan_byte (stateInString, ps) [bslash, CHR ''u'', h1, h2, h3, h4] = (stateInString, ps)"
  using assms by simp

lemma isHex_0: "isHex CHR ''0''" "isHex CHR ''2''" "isHex CHR ''f''" "isHex CHR ''d''"
  by (simp_all add: isHex_def isDigit_def byte_def)

lemma hexval_digits:
  "hexval CHR ''0'' = Some 0" "hexval CHR ''2'' = Some 2" "hexval CHR ''f'' = Some 15"
  "hexval CHR ''d'' = Some 13"
  by (simp_all add: hexval_def isDigit_def byte_def)

lemma DecodeRune_multi:
  assumes "0x80 \<le> byte b" "DecodeRune (b # s) \<noteq> (RuneError, 1)"
  shows "\<exists>c n. DecodeRune (b # s) = (c, Suc n) \<and> 1 \<le> n \<and> n \<le> length s
           \<and> EncodeRune c = b # take n s
           \<and> (\<forall>q. DecodeRune (b # take n s @ q) = (c, Suc n))
           \<and> (\<forall>x \<in> set (take n s). 0x80 \<le> byte x)"
proof -
  consider (two) b1 q where "s = b1 # q" "seq2 b b1"
    | (three) b1 b2 q where "s = b1 # b2 # q" "seq3 b b1 b2"
    | (four) b1 b2 b3 q where "s = b1 # b2 # b3 # q" "seq4 b b1 b2 b3"
    using DecodeRune_inv [OF assms] by blast
  then show ?thesis
  proof cases
    case two
    have "0x80 \<le> byte b1" using two(2) by (simp add: seq2_def)
    then show ?thesis
      using DecodeRune_seq2 [OF two(2)] Encode_rune2 [OF two(2)] two(1)
      by (intro exI [of _ "rune2 b b1"] exI [of _ 1]) simp
  next
    case three
    have "0x80 \<le> byte b1" "0x80 \<le> byte b2"
      using three(2) accept_range [of "byte b"] by (simp_all add: seq3_def)
    then show ?thesis
      using DecodeRune_seq3 [OF three(2)] Encode_rune3 [OF three(2)] three(1)
      by (intro exI [of _ "rune3 b b1 b2"] exI [of _ 2]) (simp add: numeral_2_eq_2)
  next
    case four
    have "0x80 \<le> byte b1" "0x80 \<le> byte b2" "0x80 \<le> byte b3"
      using four(2) accept_range [of "byte b"] by (simp_all add: seq4_def)
    then show ?thesis
      using DecodeRune_seq4 [OF four(2)] Encode_rune4 [OF four(2)] four(1)
      by (intro exI [of _ "rune4 b b1 b2 b3"] exI [of _ 3]) (simp add: numeral_3_eq_3)
  qed
qed

lemma appendBody_Cons_cases:
  obtains (safe) "byte b < 0x80" "htmlSafe b" "appendBody (b # s) = b # appendBody s"
  | (esc) "byte b < 0x80" "\<not> htmlSafe b" "appendBody (b # s) = escapeByte b @ appendBody s"
  | (bad) "0x80 \<le> byte b" "DecodeRune (b # s) = (RuneError, 1)"
      "appendBody (b # s)
         = [bslash, CHR ''u'', CHR ''f'', CHR ''f'', CHR ''f'', CHR ''d''] @ appendBody s"
  | (sep) c n where "0x80 \<le> byte b" "DecodeRune (b # s) = (c, Suc n)" "1 \<le> n" "n \<le> length s"
      "c = 0x2028 \<or> c = 0x2029" "EncodeRune c = b # take n s"
      "appendBody (b # s)
         = [bslash, CHR ''u'', CHR ''2'', CHR ''0'', CHR ''2'', hex (c mod 16)] @ appendBody (drop n s)"
  | (raw) c n where "0x80 \<le> byte b" "DecodeRune (b # s) = (c, Suc n)" "1 \<le> n" "n \<le> length s"
      "EncodeRune c = b # take n s" "\<forall>q. DecodeRune (b # take n s @ q) = (c, Suc n)"
      "\<forall>x \<in> set (take n s). 0x80 \<le> byte x"
      "appendBody (b # s) = (b # take n s) @ appendBody (drop n s)"
proof (cases "byte b < 0x80")
  case True
  then show ?thesis using safe esc by (cases "htmlSafe b") simp_all
next
  case False
  then have hi: "0x80 \<le> byte b" by simp
  show ?thesis
  proof (cases "DecodeRune (b # s) = (RuneError, 1)")
    case True
    then show ?thesis using bad hi False by simp
  next
    case ok: False
    from DecodeRune_multi [OF hi ok] obtain c n where
      d: "DecodeRune (b # s) = (c, Suc n)" and n: "1 \<le> n" "n \<le> length s"
      and e: "EncodeRune c = b # take n s"
      and q: "\<forall>q. DecodeRune (b # take n s @ q) = (c, Suc n)"
      and x: "\<forall>x \<in> set (take n s). 0x80 \<le> byte x"
      by blast
    show ?thesis
    proof (cases "c = 0x2028 \<or> c = 0x2029")
      case True
      have "appendBody (b # s)
         = [bslash, CHR ''u'', CHR ''2'', CHR ''0'', CHR ''2'', hex (c mod 16)] @ appendBody (drop n s)"
        using False d n True by (auto simp: Let_def)
      then show ?thesis using sep hi d n True e by blast
    next
      case F: False
      have "appendBody (b # s) = (b # take n s) @ appendBody (drop n s)"
        using False d n F by (simp add: Let_def)
      then show ?thesis using raw hi d n e q x by blast
    qed
  qed
qed

lemma escapeByte_cases:
  assumes "byte b < 0x80"
  obtains (two) e where "escapeByte b = [bslash, e]"
      "e \<in> set ''bfnrt'' \<or> e = bslash \<or> e = dquote"
      "\<And>X. unquoteBytes (bslash # e # X) = prepend [b] (unquoteBytes X)"
  | (u) "escapeByte b
      = [bslash, CHR ''u'', CHR ''0'', CHR ''0'', hex (byte b div 16), hex (byte b mod 16)]"
proof -
  consider "b = bslash" | "b = dquote" | "b = CHR 0x08" | "b = CHR 0x0C" | "b = CHR 0x0A"
    | "b = CHR 0x0D" | "b = CHR 0x09"
    | "b \<noteq> bslash \<and> b \<noteq> dquote \<and> b \<noteq> CHR 0x08 \<and> b \<noteq> CHR 0x0C \<and> b \<noteq> CHR 0x0A
        \<and> b \<noteq> CHR 0x0D \<and> b \<noteq> CHR 0x09"
    by blast
  then show ?thesis
  proof cases
    case 1 then show ?thesis by (intro two [of b]) (simp_all add: escapeByte_def)
  next
    case 2 then show ?thesis by (intro two [of b]) (simp_all add: escapeByte_def)
  next
    case 3 then show ?thesis by (intro two [of "CHR ''b''"]) (simp_all add: escapeByte_def)
  next
    case 4 then show ?thesis by (intro two [of "CHR ''f''"]) (simp_all add: escapeByte_def)
  next
    case 5 then show ?thesis by (intro two [of "CHR ''n''"]) (simp_all add: escapeByte_def)
  next
    case 6 then show ?thesis by (intro two [of "CHR ''r''"]) (simp_all add: escapeByte_def)
  next
    case 7 then show ?thesis by (intro two [of "CHR ''t''"]) (simp_all add: escapeByte_def)
  next
    case 8 then show ?thesis by (intro u) (simp add: escapeByte_def)
  qed
qed

lemma getu4_hex:
  assumes "hexval h1 = Some a" "hexval h2 = Some b" "hexval h3 = Some c" "hexval h4 = Some d"
  shows "getu4 (h1 # h2 # h3 # h4 # X) = Some (((a * 16 + b) * 16 + c) * 16 + d)"
  using assms by (simp add: getu4_def)

lemma unquote_u:
  assumes "getu4 (h1 # h2 # h3 # h4 # X) = Some rr" "\<not> IsSurrogate rr"
  shows "unquoteBytes (bslash # CHR ''u'' # h1 # h2 # h3 # h4 # X)
     = prepend (EncodeRune rr) (unquoteBytes X)"
  using assms by simp

lemma unquote_u00:
  assumes "byte b < 0x80"
  shows "unquoteBytes ([bslash, CHR ''u'', CHR ''0'', CHR ''0'', hex (byte b div 16),
            hex (byte b mod 16)] @ X) = prepend [b] (unquoteBytes X)"
proof -
  have i: "byte b div 16 < 16" and j: "byte b mod 16 < 16" using assms by simp_all
  have "getu4 (CHR ''0'' # CHR ''0'' # hex (byte b div 16) # hex (byte b mod 16) # X)
      = Some (((0 * 16 + 0) * 16 + byte b div 16) * 16 + byte b mod 16)"
    by (rule getu4_hex) (simp_all add: hexval_digits hex_props [OF i] hex_props [OF j])
  then have g: "getu4 (CHR ''0'' # CHR ''0'' # hex (byte b div 16) # hex (byte b mod 16) # X)
      = Some (byte b)" by simp
  have s: "\<not> IsSurrogate (byte b)" using assms by (simp add: IsSurrogate_def)
  have e: "EncodeRune (byte b) = [b]" using assms by (simp add: EncodeRune_def char_of_byte)
  show ?thesis using unquote_u [OF g s] by (simp add: e)
qed

lemma char_of_eqI: "byte c = n \<Longrightarrow> char_of n = c"
  using char_of_byte by auto

lemma unquote_ufffd:
  "unquoteBytes ([bslash, CHR ''u'', CHR ''f'', CHR ''f'', CHR ''f'', CHR ''d''] @ X)
     = prepend [CHR 0xEF, CHR 0xBF, CHR 0xBD] (unquoteBytes X)"
proof -
  have g: "getu4 (CHR ''f'' # CHR ''f'' # CHR ''f'' # CHR ''d'' # X) = Some 0xFFFD"
    using getu4_hex [of "CHR ''f''" 15 "CHR ''f''" 15 "CHR ''f''" 15 "CHR ''d''" 13 X]
    by (simp add: hexval_digits)
  have s: "\<not> IsSurrogate 0xFFFD" by (simp add: IsSurrogate_def)
  have "char_of (239::nat) = CHR 0xEF" "char_of (191::nat) = CHR 0xBF" "char_of (189::nat) = CHR 0xBD"
    by (rule char_of_eqI, simp add: byte_def)+
  then have e: "EncodeRune 0xFFFD = [CHR 0xEF, CHR 0xBF, CHR 0xBD]"
    by (simp add: EncodeRune_def)
  show ?thesis using unquote_u [OF g s] by (simp add: e)
qed

lemma unquote_u202:
  assumes "c = 0x2028 \<or> c = 0x2029"
  shows "unquoteBytes ([bslash, CHR ''u'', CHR ''2'', CHR ''0'', CHR ''2'', hex (c mod 16)] @ X)
     = prepend (EncodeRune c) (unquoteBytes X)"
proof -
  have m: "c mod 16 < 16" by simp
  have "getu4 (CHR ''2'' # CHR ''0'' # CHR ''2'' # hex (c mod 16) # X)
      = Some (((2 * 16 + 0) * 16 + 2) * 16 + c mod 16)"
    by (rule getu4_hex) (simp_all add: hexval_digits hex_props [OF m])
  moreover have "((2 * 16 + 0) * 16 + 2) * 16 + c mod 16 = c" using assms by auto
  ultimately have g: "getu4 (CHR ''2'' # CHR ''0'' # CHR ''2'' # hex (c mod 16) # X) = Some c"
    by simp
  have s: "\<not> IsSurrogate c" using assms by (auto simp: IsSurrogate_def)
  show ?thesis using unquote_u [OF g s] by simp
qed

lemma unquote_raw:
  assumes "0x80 \<le> byte b" "DecodeRune (b # pre @ X) = (c, Suc (length pre))"
    "EncodeRune c = b # pre"
  shows "unquoteBytes ((b # pre) @ X) = prepend (b # pre) (unquoteBytes X)"
  using assms high_not_special [OF assms(1)] by simp

lemma unquote_safe:
  assumes "byte b < 0x80" "htmlSafe b"
  shows "unquoteBytes (b # X) = prepend [b] (unquoteBytes X)"
  using assms by (simp add: htmlSafe_def)

lemma utf8_Valid_Cons:
  "utf8_Valid (b # s) =
     (if byte b < 0x80 then utf8_Valid s
      else DecodeRune (b # s) \<noteq> (RuneError, 1)
           \<and> utf8_Valid (drop (snd (DecodeRune (b # s)) - 1) s))"
  by simp

declare appendBody.simps(2) [simp del] unquoteBytes.simps(2) [simp del] utf8_Valid.simps(2) [simp del]

lemma high_plain:
  assumes "\<forall>x \<in> set xs. 0x80 \<le> byte x"
  shows "\<forall>x \<in> set xs. x \<noteq> dquote \<and> x \<noteq> bslash \<and> \<not> byte x < 0x20"
    and "\<forall>x \<in> set xs. x \<noteq> dquote \<and> x \<noteq> bslash"
  using assms high_not_special by blast+

lemma scan_appendBody:
  "foldl scan_byte (stateInString, ps) (appendBody s) = (stateInString, ps)"
proof (induction s rule: length_induct)
  case (1 s)
  show ?case
  proof (cases s)
    case Nil
    then show ?thesis by simp
  next
    case (Cons b t)
    have IH: "foldl scan_byte (stateInString, ps) (appendBody (drop n t)) = (stateInString, ps)" for n
      using 1 Cons by simp
    show ?thesis
    proof (cases rule: appendBody_Cons_cases [of b t])
      case safe
      then show ?thesis using IH [of 0] Cons by (simp add: htmlSafe_def)
    next
      case esc
      from esc(1) show ?thesis
      proof (cases rule: escapeByte_cases)
        case (two e)
        have "foldl scan_byte (stateInString, ps) [bslash, e] = (stateInString, ps)"
          using two(2) by auto
        then show ?thesis using IH [of 0] Cons esc(3) two(1) by simp
      next
        case u
        have i: "byte b div 16 < 16" and j: "byte b mod 16 < 16" using esc(1) by simp_all
        have "foldl scan_byte (stateInString, ps) (escapeByte b) = (stateInString, ps)"
          unfolding u by (rule scan_escu) (simp_all add: isHex_0 hex_props [OF i] hex_props [OF j])
        then show ?thesis using IH [of 0] Cons esc(3) by simp
      qed
    next
      case bad
      have "foldl scan_byte (stateInString, ps)
          [bslash, CHR ''u'', CHR ''f'', CHR ''f'', CHR ''f'', CHR ''d''] = (stateInString, ps)"
        by (rule scan_escu) (simp_all add: isHex_0)
      then show ?thesis using IH [of 0] Cons bad(3) by simp
    next
      case (sep c n)
      have m: "c mod 16 < 16" by simp
      have "foldl scan_byte (stateInString, ps)
          [bslash, CHR ''u'', CHR ''2'', CHR ''0'', CHR ''2'', hex (c mod 16)] = (stateInString, ps)"
        by (rule scan_escu) (simp_all add: isHex_0 hex_props [OF m])
      then show ?thesis using IH [of n] Cons sep(7) by simp
    next
      case (raw c n)
      have "\<forall>x \<in> set (b # take n t). 0x80 \<le> byte x"
        using raw(1,7) by simp
      then have "\<forall>x \<in> set (b # take n t). x \<noteq> dquote \<and> x \<noteq> bslash \<and> \<not> byte x < 0x20"
        by (rule high_plain)
      then have p: "foldl scan_byte (stateInString, ps) (b # take n t) = (stateInString, ps)"
        by (rule scan_plain)
      have "foldl scan_byte (stateInString, ps) ((b # take n t) @ appendBody (drop n t))
          = (stateInString, ps)"
        unfolding foldl_append p by (rule IH)
      then show ?thesis unfolding Cons raw(8) .
    qed
  qed
qed

lemma string_lit_appendBody:
  "string_lit (appendBody s @ dquote # rest) = (appendBody s, rest)"
proof (induction s rule: length_induct)
  case (1 s)
  show ?case
  proof (cases s)
    case Nil
    then show ?thesis by simp
  next
    case (Cons b t)
    have IH: "string_lit (appendBody (drop n t) @ dquote # rest) = (appendBody (drop n t), rest)" for n
      using 1 Cons by simp
    have step: "string_lit (appendBody s @ dquote # rest) = (appendBody s, rest)"
      if "appendBody s = chunk @ appendBody (drop n t)"
        and "string_lit (chunk @ appendBody (drop n t) @ dquote # rest)
          = (chunk @ fst (string_lit (appendBody (drop n t) @ dquote # rest)),
             snd (string_lit (appendBody (drop n t) @ dquote # rest)))"
      for chunk n
      using that IH [of n] by simp
    show ?thesis
    proof (cases rule: appendBody_Cons_cases [of b t])
      case safe
      have "string_lit ([b] @ Y) = ([b] @ fst (string_lit Y), snd (string_lit Y))" for Y
        using safe(2) by (intro string_lit_plain) (simp add: htmlSafe_def)
      then show ?thesis using step [of "[b]" 0] safe(3) Cons by simp
    next
      case esc
      from esc(1) show ?thesis
      proof (cases rule: escapeByte_cases)
        case (two e)
        show ?thesis using step [of "[bslash, e]" 0] esc(3) two(1) Cons by simp
      next
        case u
        have i: "byte b div 16 < 16" and j: "byte b mod 16 < 16" using esc(1) by simp_all
        have "string_lit ((bslash # CHR ''u'' # [CHR ''0'', CHR ''0'', hex (byte b div 16),
            hex (byte b mod 16)]) @ Y)
          = ((bslash # CHR ''u'' # [CHR ''0'', CHR ''0'', hex (byte b div 16),
            hex (byte b mod 16)]) @ fst (string_lit Y), snd (string_lit Y))" for Y
          by (rule string_lit_escu) (simp add: hex_props [OF i] hex_props [OF j])
        then show ?thesis using step [of "escapeByte b" 0] esc(3) u Cons by simp
      qed
    next
      case bad
      show ?thesis
        using step [of "[bslash, CHR ''u'', CHR ''f'', CHR ''f'', CHR ''f'', CHR ''d'']" 0] bad(3) Cons
        by simp
    next
      case (sep c n)
      have m: "c mod 16 < 16" by simp
      have "string_lit ((bslash # CHR ''u'' # [CHR ''2'', CHR ''0'', CHR ''2'', hex (c mod 16)]) @ Y)
          = ((bslash # CHR ''u'' # [CHR ''2'', CHR ''0'', CHR ''2'', hex (c mod 16)])
               @ fst (string_lit Y), snd (string_lit Y))" for Y
        by (rule string_lit_escu) (simp add: hex_props [OF m])
      then show ?thesis
        using step [of "[bslash, CHR ''u'', CHR ''2'', CHR ''0'', CHR ''2'', hex (c mod 16)]" n]
          sep(7) Cons by simp
    next
      case (raw c n)
      have "\<forall>x \<in> set (b # take n t). 0x80 \<le> byte x"
        using raw(1,7) by simp
      then have "\<forall>x \<in> set (b # take n t). x \<noteq> dquote \<and> x \<noteq> bslash"
        by (rule high_plain)
      then have "string_lit ((b # take n t) @ Y)
          = ((b # take n t) @ fst (string_lit Y), snd (string_lit Y))" for Y
        by (rule string_lit_plain)
      then show ?thesis using step [of "b # take n t" n] raw(8) Cons by (simp del: string_lit.simps)
    qed
  qed
qed

lemma unquote_appendBody:
  "utf8_Valid s \<Longrightarrow> unquoteBytes (appendBody s) = Some s"
proof (induction s rule: length_induct)
  case (1 s)
  show ?case
  proof (cases s)
    case Nil
    then show ?thesis by simp
  next
    case (Cons b t)
    have IH: "utf8_Valid (drop n t) \<Longrightarrow> unquoteBytes (appendBody (drop n t)) = Some (drop n t)" for n
      using 1 Cons by simp
    have v: "utf8_Valid (b # t)" using 1(2) Cons by simp
    show ?thesis
    proof (cases rule: appendBody_Cons_cases [of b t])
      case safe
      then have "utf8_Valid t" using v by (simp add: utf8_Valid_Cons)
      then show ?thesis
        using IH [of 0] unquote_safe [OF safe(1,2)] safe(3) Cons by (simp add: prepend_def)
    next
      case esc
      then have vt: "utf8_Valid t" using v by (simp add: utf8_Valid_Cons)
      from esc(1) show ?thesis
      proof (cases rule: escapeByte_cases)
        case (two e)
        show ?thesis
          using IH [of 0] vt two(3) [of "appendBody t"] esc(3) two(1) Cons
          by (simp add: prepend_def)
      next
        case u
        show ?thesis
          using IH [of 0] vt unquote_u00 [OF esc(1), of "appendBody t"] esc(3) u Cons
          by (simp add: prepend_def)
      qed
    next
      case bad
      then show ?thesis using v by (simp add: utf8_Valid_Cons)
    next
      case (sep c n)
      have vt: "utf8_Valid (drop n t)" using v sep(1,2) by (simp add: utf8_Valid_Cons)
      have "unquoteBytes (appendBody (b # t)) = prepend (b # take n t) (unquoteBytes (appendBody (drop n t)))"
        unfolding sep(7) using unquote_u202 [OF sep(5)] sep(6) by simp
      then show ?thesis using IH [OF vt] Cons by (simp add: prepend_def)
    next
      case (raw c n)
      have vt: "utf8_Valid (drop n t)" using v raw(1,2) by (simp add: utf8_Valid_Cons)
      have l: "length (take n t) = n" using raw(4) by simp
      have d: "DecodeRune (b # take n t @ appendBody (drop n t)) = (c, Suc (length (take n t)))"
        using raw(6) l by simp
      have "unquoteBytes (appendBody (b # t)) = prepend (b # take n t) (unquoteBytes (appendBody (drop n t)))"
        unfolding raw(8) using raw(1) d raw(5) by (rule unquote_raw)
      then show ?thesis using IH [OF vt] Cons by (simp add: prepend_def)
    qed
  qed
qed

lemma not_space: "\<not> isSpace dquote" "\<not> isSpace CHR '':''" "\<not> isSpace CHR '',''"
  "\<not> isSpace CHR ''}''" "\<not> isSpace CHR ''{''"
  by (simp_all add: isSpace_def)

lemma skip_space_Cons: "\<not> isSpace c \<Longrightarrow> skip_space (c # s) = c # s"
  by (simp add: skip_space_def)

text \<open>One member whose value is a string that appendString wrote.\<close>

lemma object_string_member:
  assumes key: "\<And>Y. string_lit (key @ dquote # Y) = (key, Y)"
    and unq: "unquoteBytes key = Some key"
  shows "object st (dquote # key @ dquote # CHR '':'' # appendString val @ rest)
     = (case skip_space rest of
          [] \<Rightarrow> store_member key (appendString val @ rest) st
        | c # s \<Rightarrow> if c = CHR '',''
            then object (store_member key (appendString val @ rest) st) s
            else store_member key (appendString val @ rest) st)"
proof -
  let ?v = "appendString val @ rest"
  let ?s' = "key @ dquote # CHR '':'' # ?v"
  have v: "?v = dquote # appendBody val @ dquote # rest"
    by (simp add: appendString_def)
  have k: "member_key ?s' = key"
    by (simp add: member_key_def key unq)
  have "skip_space (snd (string_lit ?s')) = CHR '':'' # ?v"
    by (simp add: key skip_space_Cons not_space)
  then have mv: "member_value ?s' = ?v"
    by (simp add: member_value_def v skip_space_Cons not_space)
  have sv: "skip_value ?v = rest"
    by (simp add: skip_value_def v string_lit_appendBody)
  show ?thesis
    by (subst object.simps)
       (simp add: skip_space_Cons not_space k mv sv Let_def cong: list.case_cong if_cong)
qed

lemma store_string_appendString:
  assumes "unquoteBytes (appendBody val) = Some a"
  shows "store_string f (appendString val @ rest) st = (f a (fst st), snd st)"
  using assms by (simp add: store_string_def appendString_def string_lit_appendBody)

lemma key_lits:
  "string_lit (''message'' @ dquote # Y) = (''message'', Y)"
  "string_lit (''senderid'' @ dquote # Y) = (''senderid'', Y)"
  "string_lit (''sendername'' @ dquote # Y) = (''sendername'', Y)"
  by simp_all

lemma key_unquote:
  "unquoteBytes ''message'' = Some ''message''"
  "unquoteBytes ''senderid'' = Some ''senderid''"
  "unquoteBytes ''sendername'' = Some ''sendername''"
  by (simp_all add: unquoteBytes.simps(2) prepend_def byte_def)

lemma key_fold:
  "equalFold ''message'' ''message''"
  "\<not> equalFold ''message'' ''senderid''" "equalFold ''senderid'' ''senderid''"
  "\<not> equalFold ''message'' ''sendername''" "\<not> equalFold ''senderid'' ''sendername''"
  "equalFold ''sendername'' ''sendername''"
  by (simp_all add: byte_def)

lemma decode_Marshal:
  assumes a: "unquoteBytes (appendBody (Message v)) = Some a"
    and b: "unquoteBytes (appendBody (SenderID v)) = Some b"
    and c: "unquoteBytes (appendBody (SenderName v)) = Some c"
  shows "decode (json_Marshal v) = Some \<lparr>Message = a, SenderID = b, SenderName = c\<rparr>"
proof -
  let ?r3 = "''}''"
  let ?r2 = "CHR '','' # dquote # ''sendername'' @ dquote # CHR '':'' # appendString (SenderName v) @ ?r3"
  let ?r1 = "CHR '','' # dquote # ''senderid'' @ dquote # CHR '':'' # appendString (SenderID v) @ ?r2"
  let ?m = "dquote # ''message'' @ dquote # CHR '':'' # appendString (Message v) @ ?r1"
  let ?st0 = "(zero_chatMessage, False)"
  let ?st1 = "(zero_chatMessage\<lparr>Message := a\<rparr>, False)"
  let ?st2 = "(zero_chatMessage\<lparr>Message := a, SenderID := b\<rparr>, False)"
  let ?st3 = "(zero_chatMessage\<lparr>Message := a, SenderID := b, SenderName := c\<rparr>, False)"
  have m: "json_Marshal v = CHR ''{'' # ?m"
    by (simp add: json_Marshal_def)
  have s1: "store_member ''message'' (appendString (Message v) @ ?r1) ?st0 = ?st1"
    unfolding store_member_def by (simp only: key_fold if_True store_string_appendString [OF a]) simp
  have s2: "store_member ''senderid'' (appendString (SenderID v) @ ?r2) ?st1 = ?st2"
    unfolding store_member_def by (simp only: key_fold if_True if_False store_string_appendString [OF b]) simp
  have s3: "store_member ''sendername'' (appendString (SenderName v) @ ?r3) ?st2 = ?st3"
    unfolding store_member_def by (simp only: key_fold if_True if_False store_string_appendString [OF c]) simp
  have o3: "object ?st2 (dquote # ''sendername'' @ dquote # CHR '':'' # appendString (SenderName v) @ ?r3) = ?st3"
    by (subst object_string_member [OF key_lits(3) key_unquote(3)])
       (simp add: skip_space_Cons not_space s3)
  have o2: "object ?st1 (dquote # ''senderid'' @ dquote # CHR '':'' # appendString (SenderID v) @ ?r2) = ?st3"
    by (subst object_string_member [OF key_lits(2) key_unquote(2)])
       (simp only: skip_space_Cons not_space list.case if_True s2 o3 simp_thms)
  have o1: "object ?st0 ?m = ?st3"
    by (subst object_string_member [OF key_lits(1) key_unquote(1)])
       (simp only: skip_space_Cons not_space list.case if_True s1 o2 simp_thms)
  show ?thesis
    unfolding m decode_def
    by (simp only: skip_space_Cons not_space list.case if_True o1 simp_thms)
       (simp add: zero_chatMessage_def)
qed

lemma scan_defs:
  "beginValue ps CHR ''{'' = pushParseState ps parseObjectKey stateBeginStringOrEmpty"
  "beginValue ps dquote = (stateInString, ps)"
  "beginString ps dquote = (stateInString, ps)"
  "endValue (parseObjectKey # ps) CHR '':'' = (stateBeginValue, parseObjectValue # ps)"
  "endValue (parseObjectValue # ps) CHR '','' = (stateBeginString, parseObjectKey # ps)"
  "endValue [parseObjectValue] CHR ''}'' = (stateEndTop, [])"
  by (simp_all add: beginValue_def beginString_def endValue_def isSpace_def popParseState_def)

lemma scan_key:
  assumes "\<forall>x \<in> set key. x \<noteq> dquote \<and> x \<noteq> bslash \<and> \<not> byte x < 0x20"
  shows "foldl scan_byte (stateInString, parseObjectKey # ps) (key @ dquote # CHR '':'' # dquote # X)
     = foldl scan_byte (stateInString, parseObjectValue # ps) X"
  unfolding foldl_append scan_plain [OF assms] by (simp add: scan_defs)

lemma scan_value:
  "foldl scan_byte (stateInString, ps) (appendBody val @ dquote # X)
     = foldl scan_byte (stateEndValue, ps) X"
  unfolding foldl_append scan_appendBody by simp

lemma key_plain:
  "\<forall>x \<in> set ''message''. x \<noteq> dquote \<and> x \<noteq> bslash \<and> \<not> byte x < 0x20"
  "\<forall>x \<in> set ''senderid''. x \<noteq> dquote \<and> x \<noteq> bslash \<and> \<not> byte x < 0x20"
  "\<forall>x \<in> set ''sendername''. x \<noteq> dquote \<and> x \<noteq> bslash \<and> \<not> byte x < 0x20"
  by (simp_all add: byte_def)

lemma checkValid_Marshal: "checkValid (json_Marshal v)"
proof -
  let ?r3 = "''}''"
  let ?r2 = "CHR '','' # dquote # ''sendername'' @ dquote # CHR '':'' # dquote
               # appendBody (SenderName v) @ dquote # ?r3"
  let ?r1 = "CHR '','' # dquote # ''senderid'' @ dquote # CHR '':'' # dquote
               # appendBody (SenderID v) @ dquote # ?r2"
  let ?m = "''message'' @ dquote # CHR '':'' # dquote # appendBody (Message v) @ dquote # ?r1"
  have m: "json_Marshal v = CHR ''{'' # dquote # ?m"
    by (simp add: json_Marshal_def appendString_def)
  have "foldl scan_byte (stateBeginValue, []) (CHR ''{'' # dquote # ?m)
      = foldl scan_byte (stateInString, [parseObjectKey]) ?m"
    by (simp add: scan_defs pushParseState_def maxNestingDepth_def isSpace_def del: foldl_append)
  also have "\<dots> = foldl scan_byte (stateEndValue, [parseObjectValue]) ?r1"
    unfolding scan_key [OF key_plain(1)] scan_value ..
  also have "\<dots> = foldl scan_byte (stateInString, [parseObjectKey])
      (''senderid'' @ dquote # CHR '':'' # dquote # appendBody (SenderID v) @ dquote # ?r2)"
    by (simp add: scan_defs del: foldl_append)
  also have "\<dots> = foldl scan_byte (stateEndValue, [parseObjectValue]) ?r2"
    unfolding scan_key [OF key_plain(2)] scan_value ..
  also have "\<dots> = foldl scan_byte (stateInString, [parseObjectKey])
      (''sendername'' @ dquote # CHR '':'' # dquote # appendBody (SenderName v) @ dquote # ?r3)"
    by (simp add: scan_defs del: foldl_append)
  also have "\<dots> = foldl scan_byte (stateEndValue, [parseObjectValue]) ?r3"
    unfolding scan_key [OF key_plain(3)] scan_value ..
  also have "\<dots> = (stateEndTop, [])"
    by (simp add: scan_defs)
  finally show ?thesis
    unfolding checkValid_def m by (simp add: scan_eof_def)
qed

lemma Unmarshal_Marshal:
  assumes "unquoteBytes (appendBody (Message v)) = Some a"
    and "unquoteBytes (appendBody (SenderID v)) = Some b"
    and "unquoteBytes (appendBody (SenderName v)) = Some c"
  shows "json_Unmarshal (json_Marshal v) = Some \<lparr>Message = a, SenderID = b, SenderName = c\<rparr>"
  unfolding json_Unmarshal_def using checkValid_Marshal decode_Marshal [OF assms] by simp

lemma utf8_Valid_ascii: "\<forall>x \<in> set s. byte x < 0x80 \<Longrightarrow> utf8_Valid s"
  by (induction s) (simp_all add: utf8_Valid_Cons)

text \<open>
  C4. Serializing a chatMessage and deserializing the bytes gives the message back when its
  three strings are valid UTF-8. (The encoder writes a byte that is not part of a valid
  UTF-8 sequence as \<^verbatim>\<open>\ufffd\<close>, so such a byte comes back as the three bytes of U+FFFD.)
\<close>

theorem C4_roundtrip_valid_utf8:
  "utf8_Valid (Message v) \<Longrightarrow> utf8_Valid (SenderID v) \<Longrightarrow> utf8_Valid (SenderName v) \<Longrightarrow>
   json_Unmarshal (json_Marshal v) = Some v"
  using Unmarshal_Marshal [of v "Message v" "SenderID v" "SenderName v"] unquote_appendBody
  by simp

theorem C4_roundtrip_valid_utf8_witness:
  "utf8_Valid ''a<b'' \<and> utf8_Valid ''Qm'' \<and> utf8_Valid [CHR 0xC3, CHR 0xA9]
   \<and> json_Unmarshal (json_Marshal \<lparr>Message = ''a<b'', SenderID = ''Qm'', SenderName = [CHR 0xC3, CHR 0xA9]\<rparr>)
       = Some \<lparr>Message = ''a<b'', SenderID = ''Qm'', SenderName = [CHR 0xC3, CHR 0xA9]\<rparr>"
proof -
  have 1: "utf8_Valid ''a<b''" "utf8_Valid ''Qm''"
    by (rule utf8_Valid_ascii, simp add: byte_def)+
  have "seq2 (CHR 0xC3) (CHR 0xA9)" by (simp add: seq2_def byte_def)
  then have "DecodeRune [CHR 0xC3, CHR 0xA9] = (rune2 (CHR 0xC3) (CHR 0xA9), 2)"
    by (rule DecodeRune_seq2)
  then have 2: "utf8_Valid [CHR 0xC3, CHR 0xA9]"
    by (simp add: utf8_Valid_Cons byte_def)
  show ?thesis
    using C4_roundtrip_valid_utf8 [of "\<lparr>Message = ''a<b'', SenderID = ''Qm'', SenderName = [CHR 0xC3, CHR 0xA9]\<rparr>"] 1 2
    by simp
qed

theorem C4_roundtrip_counterexample:
  "json_Unmarshal (json_Marshal \<lparr>Message = ''hi'', SenderID = ''Qm'', SenderName = [CHR 0xFF]\<rparr>)
     = Some \<lparr>Message = ''hi'', SenderID = ''Qm'', SenderName = [CHR 0xEF, CHR 0xBF, CHR 0xBD]\<rparr>
   \<and> json_Unmarshal (json_Marshal \<lparr>Message = ''hi'', SenderID = ''Qm'', SenderName = [CHR 0xFF]\<rparr>)
     \<noteq> Some \<lparr>Message = ''hi'', SenderID = ''Qm'', SenderName = [CHR 0xFF]\<rparr>"
proof -
  have 1: "unquoteBytes (appendBody ''hi'') = Some ''hi''" "unquoteBytes (appendBody ''Qm'') = Some ''Qm''"
    by (rule unquote_appendBody, rule utf8_Valid_ascii, simp add: byte_def)+
  have hi: "0x80 \<le> byte (CHR 0xFF)" by (simp add: byte_def)
  have "DecodeRune [CHR 0xFF] = (RuneError, 1)"
    by (rule DR_bad_lead [OF hi]) (simp add: byte_def)
  then have "appendBody [CHR 0xFF] = [bslash, CHR ''u'', CHR ''f'', CHR ''f'', CHR ''f'', CHR ''d'']"
    using hi by (simp add: appendBody.simps(2))
  then have 2: "unquoteBytes (appendBody [CHR 0xFF]) = Some [CHR 0xEF, CHR 0xBF, CHR 0xBD]"
    using unquote_ufffd [of "[]"] by (simp add: prepend_def)
  show ?thesis
    using Unmarshal_Marshal [of "\<lparr>Message = ''hi'', SenderID = ''Qm'', SenderName = [CHR 0xFF]\<rparr>"
        "''hi''" "''Qm''" "[CHR 0xEF, CHR 0xBF, CHR 0xBD]"] 1 2
    by simp
qed

section \<open>Payloads that do not decode\<close>








lemma Marshal_not_accepted:
  "json_Marshal v \<noteq> ''null''"
  "json_Marshal v \<noteq> ''{}''"
  "json_Marshal v \<noteq> ''{'' @ [dquote] @ ''x'' @ [dquote] @ '':1}''"
  by (simp_all add: json_Marshal_def)





end
